theory Spec2Isabelle
  imports Main "HOL-Library.Char_ord" "HOL-Library.List_Lexorder" "HOL-Library.Multiset"
begin

section \<open>The contribution-chain verification pipeline (src/verify.ts, src/utils.ts)\<close>

text \<open>
  The embedding follows the TypeScript source function by function. Strings are
  \<^typ>\<open>string\<close>; the order on them is the lexicographic order on character codes, which is
  the order of JavaScript's default \<^verbatim>\<open>Array.prototype.sort\<close> on strings.

  What the program does to the outside world is explicit:
  \<^item> the file system, the external verifier and the JavaScript engine are an environment
    \<open>env\<close> that the functions read: the two forms of \<^verbatim>\<open>fs.readdirSync\<close>, and \<^verbatim>\<open>execSync\<close>.
    Each of them either returns or throws, so their results are sums, with \<open>Inl\<close> for the
    thrown value;
  \<^item> what the program changes is threaded through as a \<open>state\<close>: the array
    \<^verbatim>\<open>verificationResults\<close>, the commands handed to \<^verbatim>\<open>execSync\<close> so far, and the lines written
    to the console.
\<close>

subsection \<open>Data\<close>

text \<open>The interface \<^verbatim>\<open>VerificationResult\<close> (verify.ts, lines 6 to 11).\<close>

record VerificationResult =
  contributionFolder :: string
  circuitName :: string
  success :: bool
  errorMessage :: "string option"

text \<open>
  A thrown JavaScript value: an instance of \<^verbatim>\<open>Error\<close> with its message, or anything else.
  The handlers of the source distinguish exactly these two (\<^verbatim>\<open>error instanceof Error\<close>).
\<close>

datatype thrown = Error string | NonError

text \<open>An entry of \<^verbatim>\<open>fs.readdirSync(source, { withFileTypes: true })\<close>.\<close>

record Dirent =
  name :: string
  isDirectory :: bool

text \<open>
  The environment. \<open>readdirSync\<close> is the listing of a directory by path (names only);
  \<open>readdirSyncWithFileTypes\<close> the same with entry types; \<open>execSync\<close> runs a shell command
  and returns when the command exits with status 0 and throws otherwise;
  \<open>typeErrorMessage\<close> is the message the JavaScript engine gives the \<^verbatim>\<open>TypeError\<close> it throws
  when the program calls the method named on a value that has no such method.
\<close>

record env =
  readdirSync :: "string \<Rightarrow> thrown + string list"
  readdirSyncWithFileTypes :: "string \<Rightarrow> thrown + Dirent list"
  execSync :: "string \<Rightarrow> thrown + unit"
  typeErrorMessage :: "string \<Rightarrow> string"

text \<open>
  Console output. Each constructor stands for one \<^verbatim>\<open>console.log\<close> or \<^verbatim>\<open>console.error\<close>
  call of the source, or for a run of calls that always come together, and carries the
  values interpolated into the templates. The lines of the summary table are:
  \<open>SummaryHeading\<close> (line 91); \<open>TableHeader\<close> and \<open>TableSeparator\<close> (lines 110 and 111) with
  the two column widths, the former with the column names, the latter with their number;
  \<open>TableRow\<close> (line 124) with the folder and the text of each cell, padded to the widths
  of the header; \<open>OverallResults\<close> (lines 134 to 137) with the three counts;
  \<open>FailedVerificationsHeading\<close> (line 140) and one \<open>FailedVerification\<close> (line 142) for each
  failed outcome, with its folder, its circuit and the message printed.
\<close>

datatype cell = PASS | FAIL | NA

datatype line =
    VerificationSuccessful string
  | FailedToVerify string
  | ErrorMessageLine string
  | VerifyingContributionsIn string
  | NoZkeyFilesFoundIn string
  | CouldNotFindMatchingInitial string
  | VerifyingUsingInitial string
  | FoundContributions nat
  | AtLeastTwoContributionsNeeded
  | NothingToVerifyYet
  | SummaryHeading
  | TableHeader nat nat "string list"
  | TableSeparator nat nat nat
  | TableRow string "cell list"
  | OverallResults nat nat nat
  | FailedVerificationsHeading
  | FailedVerification string string string
  | ErrorLine string
  | UnknownErrorOccurred

record state =
  results :: "VerificationResult list"
  commands :: "string list"
  console :: "line list"

definition push :: "VerificationResult \<Rightarrow> state \<Rightarrow> state" where
  "push r st = st\<lparr>results := results st @ [r]\<rparr>"

definition print :: "line \<Rightarrow> state \<Rightarrow> state" where
  "print l st = st\<lparr>console := console st @ [l]\<rparr>"

definition initial_state :: state where
  "initial_state = \<lparr>results = [], commands = [], console = []\<rparr>"

subsection \<open>Strings and paths\<close>

text \<open>\<^verbatim>\<open>String.prototype.endsWith\<close>.\<close>

definition endsWith :: "string \<Rightarrow> string \<Rightarrow> bool" where
  "endsWith s t \<longleftrightarrow> length t \<le> length s \<and> drop (length s - length t) s = t"

text \<open>
  \<^verbatim>\<open>path.basename(p)\<close> and \<^verbatim>\<open>path.basename(p, ext)\<close> of Node (POSIX): the last component of
  the path, trailing separators ignored; with \<open>ext\<close>, that component without the suffix
  \<open>ext\<close>, unless the component is the suffix itself. A path equal to \<open>ext\<close> gives the empty
  string. The program applies it to names of directory entries and to the paths of
  \<open>path_join\<close> below, which end in such a name.
\<close>

definition basename :: "string \<Rightarrow> string" where
  "basename p = rev (takeWhile (\<lambda>c. c \<noteq> CHR ''/'') (dropWhile (\<lambda>c. c = CHR ''/'') (rev p)))"

definition basename_ext :: "string \<Rightarrow> string \<Rightarrow> string" where
  "basename_ext p ext =
     (if ext = [] \<or> length p < length ext then basename p
      else if p = ext then []
      else let b = basename p in
        if endsWith b ext \<and> b \<noteq> ext then take (length b - length ext) b else b)"

text \<open>
  \<^verbatim>\<open>path.join\<close>, on the arguments the program gives it: the root \<^verbatim>\<open>./contributions\<close> followed
  by names of directory entries. Such names are not empty, hold no separator and are
  neither \<^verbatim>\<open>.\<close> nor \<^verbatim>\<open>..\<close>, so Node's normalisation of the joined path only removes the
  leading \<^verbatim>\<open>./\<close>.
\<close>

definition contributionRootFolder :: string where
  "contributionRootFolder = ''./contributions''"

fun joinWith :: "string \<Rightarrow> string list \<Rightarrow> string" where
  "joinWith sep [] = []"
| "joinWith sep [x] = x"
| "joinWith sep (x # y # ys) = x @ sep @ joinWith sep (y # ys)"

definition path_join :: "string list \<Rightarrow> string" where
  "path_join parts =
     (let joined = joinWith ''/'' parts
      in if take 2 joined = ''./'' then drop 2 joined else joined)"

subsection \<open>The external verifier adapter: \<^verbatim>\<open>verifyZkeyContribution\<close> (verify.ts, lines 13 to 30)\<close>

text \<open>The command line of line 16.\<close>

definition zkvi_command :: "string \<Rightarrow> string \<Rightarrow> string \<Rightarrow> string" where
  "zkvi_command initialZkeyFile ptauFile contributionZkeyFile =
     ''node --max-old-space-size=8192 ./node_modules/.bin/snarkjs zkvi ''
       @ initialZkeyFile @ '' '' @ ptauFile @ '' '' @ contributionZkeyFile"

definition verifyZkeyContribution ::
  "env \<Rightarrow> string \<Rightarrow> string \<Rightarrow> string \<Rightarrow> state \<Rightarrow> (bool \<times> string option) \<times> state" where
  "verifyZkeyContribution e initialZkeyFile ptauFile contributionZkeyFile st =
     (let cmd = zkvi_command initialZkeyFile ptauFile contributionZkeyFile;
          st1 = st\<lparr>commands := commands st @ [cmd]\<rparr>
      in case execSync e cmd of
           Inr _ \<Rightarrow>
             ((True, None), print (VerificationSuccessful (basename contributionZkeyFile)) st1)
         | Inl err \<Rightarrow>
             (let st2 = print (FailedToVerify (basename contributionZkeyFile)) st1
              in case err of
                   Error message \<Rightarrow> ((False, Some message), print (ErrorMessageLine message) st2)
                 | NonError \<Rightarrow> ((False, Some ''Unknown error''), st2)))"

subsection \<open>The artifact locator (utils.ts, lines 25 to 42)\<close>

definition getDirectories :: "env \<Rightarrow> string \<Rightarrow> thrown + string list" where
  "getDirectories e source =
     (case readdirSyncWithFileTypes e source of
        Inl t \<Rightarrow> Inl t
      | Inr dirents \<Rightarrow> Inr (map name (filter isDirectory dirents)))"

definition getZkeyFiles :: "env \<Rightarrow> string \<Rightarrow> thrown + string list" where
  "getZkeyFiles e directory =
     (let zkFilesFolder = path_join [contributionRootFolder, directory]
      in case readdirSync e zkFilesFolder of
           Inl t \<Rightarrow> Inl t
         | Inr files \<Rightarrow> Inr (filter (\<lambda>file. endsWith file ''.zkey'') files))"

text \<open>
  The regular expression \<^verbatim>\<open>/^\d{4}_/\<close>: the name starts with four ASCII digits and an
  underscore (without the \<^verbatim>\<open>u\<close> flag, \<^verbatim>\<open>\d\<close> is \<^verbatim>\<open>[0-9]\<close>).
\<close>

definition isDigit :: "char \<Rightarrow> bool" where
  "isDigit c \<longleftrightarrow> c \<in> set ''0123456789''"

fun matchOrdinalPrefix :: "string \<Rightarrow> bool" where
  "matchOrdinalPrefix (a # b # c # d # u # rest) =
     (isDigit a \<and> isDigit b \<and> isDigit c \<and> isDigit d \<and> u = CHR ''_'')"
| "matchOrdinalPrefix _ = False"

definition getContributionFolders :: "env \<Rightarrow> thrown + string list" where
  "getContributionFolders e =
     (case getDirectories e contributionRootFolder of
        Inl t \<Rightarrow> Inl t
      | Inr folders \<Rightarrow> Inr (sort (filter matchOrdinalPrefix folders)))"

subsection \<open>The pair matcher: \<^verbatim>\<open>verifyContribution\<close> (verify.ts, lines 32 to 88)\<close>

text \<open>
  The body of the loop over \<^verbatim>\<open>contributionZkeyFiles\<close> (lines 51 to 84), on the loop's
  variables \<^verbatim>\<open>allSuccessful\<close> and the state. \<^verbatim>\<open>!initialZkeyFile\<close> holds when \<^verbatim>\<open>find\<close> gave
  \<^verbatim>\<open>undefined\<close> and when it gave the empty string.
\<close>

definition verifyContribution_body ::
  "env \<Rightarrow> string \<Rightarrow> string \<Rightarrow> string \<Rightarrow> string list \<Rightarrow> string \<Rightarrow> bool \<times> state \<Rightarrow> bool \<times> state" where
  "verifyContribution_body e folder initialFolder ptauFile initialZkeyFiles zkeyFile acc =
     (let allSuccessful = fst acc; st = snd acc;
          circuit = basename_ext zkeyFile ''.zkey'';
          missing =
            (False,
             push \<lparr>contributionFolder = folder, circuitName = circuit, success = False,
                   errorMessage = Some ''Missing initial zkey file''\<rparr>
               (print (CouldNotFindMatchingInitial zkeyFile) st))
      in case List.find (\<lambda>file. file = zkeyFile) initialZkeyFiles of
           None \<Rightarrow> missing
         | Some initialZkeyFile \<Rightarrow>
             if initialZkeyFile = [] then missing
             else
               (let fullInitialZkeyPath =
                      path_join [contributionRootFolder, initialFolder, initialZkeyFile];
                    fullContributionZkeyPath =
                      path_join [contributionRootFolder, folder, zkeyFile];
                    st1 = print (VerifyingUsingInitial zkeyFile) st;
                    res = verifyZkeyContribution e fullInitialZkeyPath ptauFile
                            fullContributionZkeyPath st1;
                    succ = fst (fst res); msg = snd (fst res);
                    st2 = push \<lparr>contributionFolder = folder, circuitName = circuit,
                                success = succ, errorMessage = msg\<rparr> (snd res)
                in (if \<not> succ then False else allSuccessful, st2)))"

fun verifyContribution_loop ::
  "env \<Rightarrow> string \<Rightarrow> string \<Rightarrow> string \<Rightarrow> string list \<Rightarrow> string list \<Rightarrow> bool \<times> state \<Rightarrow> bool \<times> state" where
  "verifyContribution_loop e folder initialFolder ptauFile initialZkeyFiles [] acc = acc"
| "verifyContribution_loop e folder initialFolder ptauFile initialZkeyFiles (zkeyFile # rest) acc =
     verifyContribution_loop e folder initialFolder ptauFile initialZkeyFiles rest
       (verifyContribution_body e folder initialFolder ptauFile initialZkeyFiles zkeyFile acc)"

text \<open>
  \<^verbatim>\<open>verifyContribution\<close> returns a boolean or lets an exception of \<^verbatim>\<open>getZkeyFiles\<close> pass (the
  function has no handler of its own); the baseline folder is listed only when the
  contribution folder has at least one artifact.
\<close>

definition verifyContribution ::
  "env \<Rightarrow> string \<Rightarrow> string \<Rightarrow> string \<Rightarrow> state \<Rightarrow> (thrown + bool) \<times> state" where
  "verifyContribution e folder initialFolder ptauFile st =
     (let st0 = print (VerifyingContributionsIn folder) st
      in case getZkeyFiles e folder of
           Inl t \<Rightarrow> (Inl t, st0)
         | Inr contributionZkeyFiles \<Rightarrow>
             if length contributionZkeyFiles = 0
             then (Inr False, print (NoZkeyFilesFoundIn folder) st0)
             else
               (case getZkeyFiles e initialFolder of
                  Inl t \<Rightarrow> (Inl t, st0)
                | Inr initialZkeyFiles \<Rightarrow>
                    if length initialZkeyFiles = 0
                    then (Inr False, print (NoZkeyFilesFoundIn initialFolder) st0)
                    else
                      (let r = verifyContribution_loop e folder initialFolder ptauFile
                                 initialZkeyFiles contributionZkeyFiles (True, st0)
                       in (Inr (fst r), snd r))))"

subsection \<open>The report aggregator: \<^verbatim>\<open>printResultsTable\<close> (verify.ts, lines 90 to 145)\<close>

text \<open>
  \<^verbatim>\<open>folderGroups\<close> and \<^verbatim>\<open>resultByCircuit\<close> are plain objects used as dictionaries. Reading
  \<^verbatim>\<open>obj[key]\<close> gives the object's own property of that name when it has one, and
  otherwise the property it inherits from \<^verbatim>\<open>Object.prototype\<close>, which exists for the names
  below and is a function (for \<^verbatim>\<open>__proto__\<close>: the prototype object), hence truthy and
  without the methods \<^verbatim>\<open>push\<close> and \<^verbatim>\<open>padEnd\<close>.
\<close>

definition objectPrototypeNames :: "string list" where
  "objectPrototypeNames =
     [''constructor'', ''__defineGetter__'', ''__defineSetter__'', ''hasOwnProperty'',
      ''__lookupGetter__'', ''__lookupSetter__'', ''isPrototypeOf'', ''propertyIsEnumerable'',
      ''toString'', ''valueOf'', ''__proto__'', ''toLocaleString'']"

text \<open>
  The callback of \<^verbatim>\<open>reduce\<close> (lines 94 to 99). The own properties of the accumulator are an
  association list in insertion order. When the folder is not an own property but names
  an inherited one, \<^verbatim>\<open>!acc[folder]\<close> is false, no group is created, and
  \<^verbatim>\<open>acc[folder].push\<close> is not a function: the call throws a \<^verbatim>\<open>TypeError\<close>.
\<close>

definition groupPush ::
  "env \<Rightarrow> (string \<times> VerificationResult list) list \<Rightarrow> VerificationResult
     \<Rightarrow> thrown + (string \<times> VerificationResult list) list" where
  "groupPush e acc result =
     (let folder = contributionFolder result
      in if map_of acc folder = None \<and> folder \<in> set objectPrototypeNames
         then Inl (Error (typeErrorMessage e ''push''))
         else
           (let acc1 = (if map_of acc folder = None then acc @ [(folder, [])] else acc)
            in Inr (map (\<lambda>(k, v). if k = folder then (k, v @ [result]) else (k, v)) acc1)))"

fun reduce_groupPush ::
  "env \<Rightarrow> (string \<times> VerificationResult list) list \<Rightarrow> VerificationResult list
     \<Rightarrow> thrown + (string \<times> VerificationResult list) list" where
  "reduce_groupPush e acc [] = Inr acc"
| "reduce_groupPush e acc (result # rest) =
     (case groupPush e acc result of
        Inl t \<Rightarrow> Inl t
      | Inr acc' \<Rightarrow> reduce_groupPush e acc' rest)"

definition folderGroups ::
  "env \<Rightarrow> VerificationResult list \<Rightarrow> thrown + (string \<times> VerificationResult list) list" where
  "folderGroups e rs = reduce_groupPush e [] rs"

text \<open>\<^verbatim>\<open>[...new Set(xs)]\<close>: the distinct elements, in order of first occurrence.\<close>

definition setValues :: "'a list \<Rightarrow> 'a list" where
  "setValues xs = rev (remdups (rev xs))"

definition allCircuits :: "VerificationResult list \<Rightarrow> string list" where
  "allCircuits rs = sort (setValues (map circuitName rs))"

text \<open>
  The own properties of \<^verbatim>\<open>resultByCircuit\<close> after the loop of lines 119 to 121. An
  assignment \<^verbatim>\<open>obj[key] = text\<close> creates or overwrites an own property, except for the key
  \<^verbatim>\<open>__proto__\<close>, where it calls the inherited setter, which ignores a string.
\<close>

definition resultByCircuit :: "VerificationResult list \<Rightarrow> string \<Rightarrow> cell option" where
  "resultByCircuit folderResults =
     foldl (\<lambda>m result.
              if circuitName result = ''__proto__'' then m
              else m(circuitName result \<mapsto> (if success result then PASS else FAIL)))
       Map.empty folderResults"

text \<open>
  One cell of a row (line 125): \<^verbatim>\<open>(resultByCircuit[circuit] || "N/A").padEnd(circuitWidth)\<close>.
  An own property is the text of a result; without one, an inherited property is truthy
  and has no \<^verbatim>\<open>padEnd\<close>, so the call throws a \<^verbatim>\<open>TypeError\<close>; with neither, the cell is
  the text for "not applicable".
\<close>

definition tableCell :: "env \<Rightarrow> (string \<Rightarrow> cell option) \<Rightarrow> string \<Rightarrow> thrown + cell" where
  "tableCell e own circuit =
     (case own circuit of
        Some c \<Rightarrow> Inr c
      | None \<Rightarrow>
          if circuit \<in> set objectPrototypeNames
          then Inl (Error (typeErrorMessage e ''padEnd''))
          else Inr NA)"

text \<open>\<^verbatim>\<open>allCircuits.map\<close> over the cells of one row: it ends at the first cell that throws.\<close>

fun tableCells :: "env \<Rightarrow> (string \<Rightarrow> cell option) \<Rightarrow> string list \<Rightarrow> thrown + cell list" where
  "tableCells e own [] = Inr []"
| "tableCells e own (circuit # rest) =
     (case tableCell e own circuit of
        Inl t \<Rightarrow> Inl t
      | Inr c \<Rightarrow>
          (case tableCells e own rest of
             Inl t \<Rightarrow> Inl t
           | Inr cs \<Rightarrow> Inr (c # cs)))"

text \<open>
  The loop over the sorted keys of \<^verbatim>\<open>folderGroups\<close> (lines 114 to 127): each row is printed
  by one call, after its cells have been computed.
\<close>

fun printRows ::
  "env \<Rightarrow> (string \<times> VerificationResult list) list \<Rightarrow> string list \<Rightarrow> string list \<Rightarrow> state
     \<Rightarrow> (thrown + unit) \<times> state" where
  "printRows e groups circuits [] st = (Inr (), st)"
| "printRows e groups circuits (folder # rest) st =
     (let folderResults = (case map_of groups folder of Some v \<Rightarrow> v | None \<Rightarrow> [])
      in case tableCells e (resultByCircuit folderResults) circuits of
           Inl t \<Rightarrow> (Inl t, st)
         | Inr cells \<Rightarrow> printRows e groups circuits rest (print (TableRow folder cells) st))"

definition failureText :: "VerificationResult \<Rightarrow> string" where
  "failureText r =
     (case errorMessage r of
        None \<Rightarrow> ''Verification failed''
      | Some m \<Rightarrow> if m = [] then ''Verification failed'' else m)"

text \<open>
  \<^verbatim>\<open>printResultsTable\<close>. \<^verbatim>\<open>Object.keys\<close> lists the own properties (array indices first, the
  others in insertion order); the program takes the greatest length of the keys and sorts
  them, so their order does not matter here.
\<close>

definition printResultsTable ::
  "env \<Rightarrow> VerificationResult list \<Rightarrow> state \<Rightarrow> (thrown + unit) \<times> state" where
  "printResultsTable e rs st =
     (let st1 = print SummaryHeading st
      in case folderGroups e rs of
           Inl t \<Rightarrow> (Inl t, st1)
         | Inr groups \<Rightarrow>
             (let circuits = allCircuits rs;
                  folderWidth = foldr max (map length (map fst groups)) 20;
                  circuitWidth = foldr max (map length circuits) 15;
                  st2 = print (TableSeparator folderWidth circuitWidth (length circuits))
                          (print (TableHeader folderWidth circuitWidth circuits) st1);
                  r = printRows e groups circuits (sort (map fst groups)) st2
              in case fst r of
                   Inl t \<Rightarrow> (Inl t, snd r)
                 | Inr u \<Rightarrow>
                     (let totalTests = length rs;
                          passedTests = length (filter success rs);
                          failedTests = totalTests - passedTests;
                          st3 = print (OverallResults totalTests passedTests failedTests) (snd r)
                      in if failedTests > 0
                         then (Inr (),
                               foldl (\<lambda>s result.
                                        print (FailedVerification (contributionFolder result)
                                                 (circuitName result) (failureText result)) s)
                                 (print FailedVerificationsHeading st3)
                                 (filter (\<lambda>result. \<not> success result) rs))
                         else (Inr (), st3))))"

subsection \<open>The chain driver: \<^verbatim>\<open>main\<close> (verify.ts, lines 147 to 212)\<close>

text \<open>The loop of lines 196 to 199, on its index \<open>i\<close>.\<close>

function main_loop ::
  "env \<Rightarrow> string list \<Rightarrow> string \<Rightarrow> string \<Rightarrow> nat \<Rightarrow> state \<Rightarrow> (thrown + unit) \<times> state" where
  "main_loop e contributionFolders initialFolder ptauFile i st =
     (if i < length contributionFolders then
        (let currentFolder = contributionFolders ! i;
             r = verifyContribution e currentFolder initialFolder ptauFile st
         in case fst r of
              Inl t \<Rightarrow> (Inl t, snd r)
            | Inr b \<Rightarrow> main_loop e contributionFolders initialFolder ptauFile (i + 1) (snd r))
      else (Inr (), st))"
  by pat_completeness auto
termination
  by (relation "measure (\<lambda>(e, contributionFolders, initialFolder, ptauFile, i, st).
                  length contributionFolders - i)") auto

declare main_loop.simps [simp del]

text \<open>
  The handler of \<^verbatim>\<open>main\<close> (lines 204 to 211): the error is written to the console and the
  process exits with status 1.
\<close>

datatype exit = Returned | ProcessExit nat

definition main_catch :: "thrown \<Rightarrow> state \<Rightarrow> exit \<times> state" where
  "main_catch t st =
     (ProcessExit 1,
      print (case t of Error message \<Rightarrow> ErrorLine message | NonError \<Rightarrow> UnknownErrorOccurred) st)"

text \<open>
  \<^verbatim>\<open>main\<close>. The statements of lines 149 to 178 are the setup phase (environment check,
  public-parameters file, initial setup, download); they call collaborators that are not
  part of this development and are represented by their outcome \<open>setup\<close>: the value they
  throw, or the path that \<^verbatim>\<open>ensurePtauFile\<close> returns. The environment is the file system
  they leave behind, and the state records what happens from line 181 on. (When the setup
  succeeds, \<^verbatim>\<open>ensureInitialSetup\<close> has found \<^verbatim>\<open>.r1cs\<close> and \<^verbatim>\<open>.zkey\<close> files in
  \<^verbatim>\<open>0000_initial\<close>; the baseline of the run is the first folder in sorted order, which need
  not be that one.)
\<close>

definition main :: "env \<Rightarrow> thrown + string \<Rightarrow> exit \<times> state" where
  "main e setup =
     (case setup of
        Inl t \<Rightarrow> main_catch t initial_state
      | Inr ptauFile \<Rightarrow>
          (case getContributionFolders e of
             Inl t \<Rightarrow> main_catch t initial_state
           | Inr contributionFolders \<Rightarrow>
               (let st1 = print (FoundContributions (length contributionFolders)) initial_state
                in if length contributionFolders < 2
                   then (Returned,
                         print NothingToVerifyYet (print AtLeastTwoContributionsNeeded st1))
                   else
                     (let initialFolder = contributionFolders ! 0;
                          r = main_loop e contributionFolders initialFolder ptauFile 1 st1
                      in case fst r of
                           Inl t \<Rightarrow> main_catch t (snd r)
                         | Inr u \<Rightarrow>
                             (let r2 = printResultsTable e (results (snd r)) (snd r)
                              in case fst r2 of
                                   Inl t \<Rightarrow> main_catch t (snd r2)
                                 | Inr u \<Rightarrow> (Returned, snd r2))))))"

subsection \<open>Notions used to state the properties\<close>

text \<open>
  The artifact listing of a folder, empty when the folder cannot be listed; the outcome
  derived from the verifier's result and the outcome for an artifact without counterpart;
  the outcomes and the verifier commands of one folder against a baseline.
\<close>

definition stem :: "string \<Rightarrow> string" where
  "stem zkeyFile = basename_ext zkeyFile ''.zkey''"

definition artifactPath :: "string \<Rightarrow> string \<Rightarrow> string" where
  "artifactPath folder file = path_join [contributionRootFolder, folder, file]"

definition verifierOutcome :: "env \<Rightarrow> string \<Rightarrow> string \<Rightarrow> string \<Rightarrow> string \<Rightarrow> VerificationResult" where
  "verifierOutcome e initialFolder ptauFile folder zkeyFile =
     (case execSync e (zkvi_command (artifactPath initialFolder zkeyFile) ptauFile
                         (artifactPath folder zkeyFile)) of
        Inr u \<Rightarrow> \<lparr>contributionFolder = folder, circuitName = stem zkeyFile,
                  success = True, errorMessage = None\<rparr>
      | Inl (Error message) \<Rightarrow> \<lparr>contributionFolder = folder, circuitName = stem zkeyFile,
                  success = False, errorMessage = Some message\<rparr>
      | Inl NonError \<Rightarrow> \<lparr>contributionFolder = folder, circuitName = stem zkeyFile,
                  success = False, errorMessage = Some ''Unknown error''\<rparr>)"

definition missingOutcome :: "string \<Rightarrow> string \<Rightarrow> VerificationResult" where
  "missingOutcome folder zkeyFile =
     \<lparr>contributionFolder = folder, circuitName = stem zkeyFile, success = False,
      errorMessage = Some ''Missing initial zkey file''\<rparr>"

definition artifactOutcome ::
  "env \<Rightarrow> string \<Rightarrow> string \<Rightarrow> string list \<Rightarrow> string \<Rightarrow> string \<Rightarrow> VerificationResult" where
  "artifactOutcome e initialFolder ptauFile initialZkeyFiles folder zkeyFile =
     (if zkeyFile \<in> set initialZkeyFiles
      then verifierOutcome e initialFolder ptauFile folder zkeyFile
      else missingOutcome folder zkeyFile)"

definition zkeyFilesOf :: "env \<Rightarrow> string \<Rightarrow> string list" where
  "zkeyFilesOf e directory = (case getZkeyFiles e directory of Inr files \<Rightarrow> files | Inl t \<Rightarrow> [])"

definition listable :: "env \<Rightarrow> string \<Rightarrow> bool" where
  "listable e directory = (case getZkeyFiles e directory of Inr files \<Rightarrow> True | Inl t \<Rightarrow> False)"

definition folderOutcomes :: "env \<Rightarrow> string \<Rightarrow> string \<Rightarrow> string \<Rightarrow> VerificationResult list" where
  "folderOutcomes e initialFolder ptauFile folder =
     (if zkeyFilesOf e folder = [] \<or> zkeyFilesOf e initialFolder = [] then []
      else map (artifactOutcome e initialFolder ptauFile (zkeyFilesOf e initialFolder) folder)
             (zkeyFilesOf e folder))"

definition folderCommands :: "env \<Rightarrow> string \<Rightarrow> string \<Rightarrow> string \<Rightarrow> string list" where
  "folderCommands e initialFolder ptauFile folder =
     map (\<lambda>zkeyFile. zkvi_command (artifactPath initialFolder zkeyFile) ptauFile
                       (artifactPath folder zkeyFile))
       (filter (\<lambda>zkeyFile. zkeyFile \<in> set (zkeyFilesOf e initialFolder)) (zkeyFilesOf e folder))"

text \<open>
  The groups of the report as the specification describes them: one group per folder, in
  order of first occurrence, holding the folder's outcomes in list order.
\<close>

definition groupsOf :: "VerificationResult list \<Rightarrow> (string \<times> VerificationResult list) list" where
  "groupsOf rs =
     map (\<lambda>k. (k, filter (\<lambda>r. contributionFolder r = k) rs))
       (setValues (map contributionFolder rs))"

text \<open>
  The numeric ordinal of a folder name, as the specification speaks of it: the first four
  characters read as a decimal number. The program itself never parses it.
\<close>

definition digitValue :: "char \<Rightarrow> nat" where
  "digitValue c = of_char c - 48"

fun ordinalOf :: "string \<Rightarrow> nat" where
  "ordinalOf (a # b # c # d # rest) =
     1000 * digitValue a + 100 * digitValue b + 10 * digitValue c + digitValue d"
| "ordinalOf _ = 0"

text \<open>
  The rows and the column names of the summary table, read off the console lines.
\<close>

fun rowOfLine :: "line \<Rightarrow> (string \<times> cell list) list" where
  "rowOfLine (TableRow folder cells) = [(folder, cells)]"
| "rowOfLine _ = []"

definition tableRowsOf :: "line list \<Rightarrow> (string \<times> cell list) list" where
  "tableRowsOf ls = concat (map rowOfLine ls)"

fun headersOfLine :: "line \<Rightarrow> string list list" where
  "headersOfLine (TableHeader folderWidth circuitWidth circuits) = [circuits]"
| "headersOfLine _ = []"

definition tableHeadersOf :: "line list \<Rightarrow> string list list" where
  "tableHeadersOf ls = concat (map headersOfLine ls)"

text \<open>
  The cells of the row of a folder: for each column, the text of the last outcome of the
  folder for that circuit, or "not applicable" when it has none.
\<close>

definition rowCells :: "VerificationResult list \<Rightarrow> string \<Rightarrow> cell list" where
  "rowCells rs folder =
     map (\<lambda>circuit.
            case resultByCircuit (filter (\<lambda>r. contributionFolder r = folder) rs) circuit of
              Some c \<Rightarrow> c | None \<Rightarrow> NA)
       (sort (setValues (map circuitName rs)))"

subsection \<open>Example environments\<close>

definition example_env :: env where
  "example_env =
     \<lparr>readdirSync = (\<lambda>path.
        if path = ''contributions/0000_initial'' then Inr [''a.zkey'', ''b.zkey'', ''a.r1cs'']
        else if path = ''contributions/0001_alice'' then Inr [''a.zkey'', ''b.zkey'']
        else if path = ''contributions/0002_bob'' then Inr [''a.zkey'', ''c.zkey'']
        else Inl (Error ''ENOENT'')),
      readdirSyncWithFileTypes = (\<lambda>path.
        if path = ''./contributions''
        then Inr [\<lparr>name = ''0002_bob'', isDirectory = True\<rparr>,
                  \<lparr>name = ''0000_initial'', isDirectory = True\<rparr>,
                  \<lparr>name = ''0003_notes.txt'', isDirectory = False\<rparr>,
                  \<lparr>name = ''0001_alice'', isDirectory = True\<rparr>,
                  \<lparr>name = ''tmp'', isDirectory = True\<rparr>]
        else Inl (Error ''ENOENT'')),
      execSync = (\<lambda>cmd.
        if cmd = zkvi_command ''contributions/0000_initial/b.zkey'' ''pot.ptau''
                   ''contributions/0001_alice/b.zkey''
        then Inl (Error ''Command failed'') else Inr ()),
      typeErrorMessage = (\<lambda>method. method @ '' is not a function'')\<rparr>"

definition empty_baseline_env :: env where
  "empty_baseline_env =
     \<lparr>readdirSync = (\<lambda>path.
        if path = ''contributions/0000_initial'' then Inr [''a.r1cs'']
        else if path = ''contributions/0001_alice'' then Inr [''a.zkey'']
        else Inl (Error ''ENOENT'')),
      readdirSyncWithFileTypes = (\<lambda>path.
        if path = ''./contributions''
        then Inr [\<lparr>name = ''0000_initial'', isDirectory = True\<rparr>,
                  \<lparr>name = ''0001_alice'', isDirectory = True\<rparr>]
        else Inl (Error ''ENOENT'')),
      execSync = (\<lambda>cmd. Inr ()),
      typeErrorMessage = (\<lambda>method. method @ '' is not a function'')\<rparr>"

definition baseline_only_env :: env where
  "baseline_only_env =
     \<lparr>readdirSync = (\<lambda>path.
        if path = ''contributions/0000_initial'' then Inr [''a.zkey'', ''a.r1cs'']
        else Inl (Error ''ENOENT'')),
      readdirSyncWithFileTypes = (\<lambda>path.
        if path = ''./contributions''
        then Inr [\<lparr>name = ''0000_initial'', isDirectory = True\<rparr>,
                  \<lparr>name = ''README.md'', isDirectory = False\<rparr>]
        else Inl (Error ''ENOENT'')),
      execSync = (\<lambda>cmd. Inr ()),
      typeErrorMessage = (\<lambda>method. method @ '' is not a function'')\<rparr>"

definition passing_env :: env where
  "passing_env = example_env\<lparr>execSync := (\<lambda>cmd. Inr ())\<rparr>"

definition unordered_outcomes :: "VerificationResult list" where
  "unordered_outcomes =
     [\<lparr>contributionFolder = ''0002_bob'', circuitName = ''b'', success = True,
        errorMessage = None\<rparr>,
      \<lparr>contributionFolder = ''0001_alice'', circuitName = ''a'', success = False,
        errorMessage = Some ''Command failed''\<rparr>,
      \<lparr>contributionFolder = ''0002_bob'', circuitName = ''a'', success = True,
        errorMessage = None\<rparr>]"

text \<open>
  Four contribution folders, the third of which cannot be read
  (\<^verbatim>\<open>readdirSync\<close> throws on it).
\<close>

definition unlistable_env :: env where
  "unlistable_env =
     \<lparr>readdirSync = (\<lambda>path.
        if path = ''contributions/0000_initial'' then Inr [''a.zkey'', ''a.r1cs'']
        else if path = ''contributions/0001_alice'' then Inr [''a.zkey'']
        else if path = ''contributions/0003_carol'' then Inr [''a.zkey'']
        else Inl (Error ''EACCES: permission denied, scandir'')),
      readdirSyncWithFileTypes = (\<lambda>path.
        if path = ''./contributions''
        then Inr [\<lparr>name = ''0000_initial'', isDirectory = True\<rparr>,
                  \<lparr>name = ''0001_alice'', isDirectory = True\<rparr>,
                  \<lparr>name = ''0002_bob'', isDirectory = True\<rparr>,
                  \<lparr>name = ''0003_carol'', isDirectory = True\<rparr>]
        else Inl (Error ''ENOENT'')),
      execSync = (\<lambda>cmd. Inr ()),
      typeErrorMessage = (\<lambda>method. method @ '' is not a function'')\<rparr>"

text \<open>
  An outcome list with a circuit named like an inherited property, present in one folder
  only (the file \<^verbatim>\<open>constructor.zkey\<close>).
\<close>

definition inherited_name_outcomes :: "VerificationResult list" where
  "inherited_name_outcomes =
     [\<lparr>contributionFolder = ''0001_alice'', circuitName = ''constructor'', success = True,
        errorMessage = None\<rparr>,
      \<lparr>contributionFolder = ''0002_bob'', circuitName = ''a'', success = True,
        errorMessage = None\<rparr>]"

section \<open>Auxiliary lemmas\<close>

text \<open>
  How each function changes the recorded outcomes and the commands run, from the loop body
  up to \<open>main\<close>; then facts on the order of folder names and on the groups of the report.
\<close>

lemma find_eq_None_iff: "List.find (\<lambda>file. file = z) xs = None \<longleftrightarrow> z \<notin> set xs"
  by (induction xs) auto

lemma find_eq_Some: "List.find (\<lambda>file. file = z) xs = Some y \<Longrightarrow> y = z \<and> z \<in> set xs"
  by (induction xs) (auto split: if_splits)

lemma body_missing:
  "z \<notin> set bs \<Longrightarrow> verifyContribution_body e f i p bs z acc =
     (False, push (missingOutcome f z) (print (CouldNotFindMatchingInitial z) (snd acc)))"
  unfolding verifyContribution_body_def Let_def missingOutcome_def stem_def
  by (simp add: find_eq_None_iff[THEN iffD2])

lemma find_member: "z \<in> set xs \<Longrightarrow> List.find (\<lambda>file. file = z) xs = Some z"
  by (induction xs) auto

lemma verifyZkeyContribution_fst:
  "fst (verifyZkeyContribution e a p c st) =
     (case execSync e (zkvi_command a p c) of
        Inr u \<Rightarrow> (True, None)
      | Inl (Error message) \<Rightarrow> (False, Some message)
      | Inl NonError \<Rightarrow> (False, Some ''Unknown error''))"
  by (simp add: verifyZkeyContribution_def print_def Let_def split: sum.split thrown.split)

lemma verifyZkeyContribution_results:
  "results (snd (verifyZkeyContribution e a p c st)) = results st"
  by (simp add: verifyZkeyContribution_def print_def Let_def split: sum.split thrown.split)

lemma verifyZkeyContribution_commands:
  "commands (snd (verifyZkeyContribution e a p c st)) = commands st @ [zkvi_command a p c]"
  by (simp add: verifyZkeyContribution_def print_def Let_def split: sum.split thrown.split)

lemma body_matched:
  assumes "z \<in> set bs" "z \<noteq> []"
  shows "verifyContribution_body e f i p bs z acc =
     (let res = verifyZkeyContribution e (artifactPath i z) p (artifactPath f z)
                  (print (VerifyingUsingInitial z) (snd acc))
      in (if \<not> fst (fst res) then False else fst acc,
          push \<lparr>contributionFolder = f, circuitName = stem z,
                success = fst (fst res), errorMessage = snd (fst res)\<rparr> (snd res)))"
  unfolding verifyContribution_body_def Let_def stem_def artifactPath_def
  using assms by (simp add: find_member)

lemma verifierOutcome_eq:
  "verifierOutcome e i p f z =
     (let v = fst (verifyZkeyContribution e (artifactPath i z) p (artifactPath f z) st)
      in \<lparr>contributionFolder = f, circuitName = stem z, success = fst v, errorMessage = snd v\<rparr>)"
  by (simp add: verifierOutcome_def verifyZkeyContribution_fst Let_def split: sum.split thrown.split)

lemma body_results:
  assumes "z \<noteq> []"
  shows "results (snd (verifyContribution_body e f i p bs z acc)) =
         results (snd acc) @ [artifactOutcome e i p bs f z]"
proof (cases "z \<in> set bs")
  case True
  show ?thesis
    unfolding body_matched[OF True assms] artifactOutcome_def Let_def
    using True
    by (simp add: push_def verifyZkeyContribution_results print_def
        verifierOutcome_eq[where st = "print (VerifyingUsingInitial z) (snd acc)"] Let_def)
next
  case False
  then show ?thesis
    by (simp add: body_missing artifactOutcome_def push_def print_def)
qed

lemma body_commands:
  assumes "z \<noteq> []"
  shows "commands (snd (verifyContribution_body e f i p bs z acc)) =
         commands (snd acc) @
           (if z \<in> set bs then [zkvi_command (artifactPath i z) p (artifactPath f z)] else [])"
proof (cases "z \<in> set bs")
  case True
  show ?thesis
    unfolding body_matched[OF True assms] Let_def
    using True by (simp add: push_def verifyZkeyContribution_commands print_def)
next
  case False
  then show ?thesis
    by (simp add: body_missing push_def print_def)
qed

lemma loop_results:
  "\<forall>z\<in>set zs. z \<noteq> [] \<Longrightarrow>
   results (snd (verifyContribution_loop e f i p bs zs acc)) =
     results (snd acc) @ map (artifactOutcome e i p bs f) zs"
  by (induction zs arbitrary: acc) (simp_all add: body_results)

lemma loop_commands:
  "\<forall>z\<in>set zs. z \<noteq> [] \<Longrightarrow>
   commands (snd (verifyContribution_loop e f i p bs zs acc)) =
     commands (snd acc) @
       map (\<lambda>z. zkvi_command (artifactPath i z) p (artifactPath f z))
         (filter (\<lambda>z. z \<in> set bs) zs)"
  by (induction zs arbitrary: acc) (simp_all add: body_commands)

lemma endsWith_nonempty: "endsWith s ''.zkey'' \<Longrightarrow> s \<noteq> []"
  by (auto simp: endsWith_def)

lemma getZkeyFiles_nonempty: "getZkeyFiles e d = Inr fs \<Longrightarrow> \<forall>z\<in>set fs. z \<noteq> []"
  by (auto simp: getZkeyFiles_def Let_def endsWith_def split: sum.splits)

lemma verifyContribution_throws1:
  "getZkeyFiles e f = Inl t \<Longrightarrow>
   verifyContribution e f i p st = (Inl t, print (VerifyingContributionsIn f) st)"
  by (simp add: verifyContribution_def Let_def)

lemma verifyContribution_empty1:
  "getZkeyFiles e f = Inr [] \<Longrightarrow>
   verifyContribution e f i p st =
     (Inr False, print (NoZkeyFilesFoundIn f) (print (VerifyingContributionsIn f) st))"
  by (simp add: verifyContribution_def Let_def)

lemma verifyContribution_throws2:
  "getZkeyFiles e f = Inr cs \<Longrightarrow> cs \<noteq> [] \<Longrightarrow> getZkeyFiles e i = Inl t \<Longrightarrow>
   verifyContribution e f i p st = (Inl t, print (VerifyingContributionsIn f) st)"
  by (simp add: verifyContribution_def Let_def)

lemma verifyContribution_empty2:
  "getZkeyFiles e f = Inr cs \<Longrightarrow> cs \<noteq> [] \<Longrightarrow> getZkeyFiles e i = Inr [] \<Longrightarrow>
   verifyContribution e f i p st =
     (Inr False, print (NoZkeyFilesFoundIn i) (print (VerifyingContributionsIn f) st))"
  by (simp add: verifyContribution_def Let_def)

lemma verifyContribution_loop_case:
  "getZkeyFiles e f = Inr cs \<Longrightarrow> cs \<noteq> [] \<Longrightarrow> getZkeyFiles e i = Inr bs \<Longrightarrow> bs \<noteq> [] \<Longrightarrow>
   verifyContribution e f i p st =
     (let r = verifyContribution_loop e f i p bs cs (True, print (VerifyingContributionsIn f) st)
      in (Inr (fst r), snd r))"
  by (simp add: verifyContribution_def Let_def)

lemma verifyContribution_cases:
  obtains (throws1) t where "getZkeyFiles e f = Inl t"
  | (empty1) "getZkeyFiles e f = Inr []"
  | (throws2) cs t where "getZkeyFiles e f = Inr cs" "cs \<noteq> []" "getZkeyFiles e i = Inl t"
  | (empty2) cs where "getZkeyFiles e f = Inr cs" "cs \<noteq> []" "getZkeyFiles e i = Inr []"
  | (loop) cs bs where "getZkeyFiles e f = Inr cs" "cs \<noteq> []" "getZkeyFiles e i = Inr bs" "bs \<noteq> []"
proof (cases "getZkeyFiles e f")
  case (Inl t)
  then show ?thesis by (rule throws1)
next
  case (Inr cs)
  note c = this
  show ?thesis
  proof (cases "cs = []")
    case True
    with c show ?thesis using empty1 by simp
  next
    case False
    note ne = this
    show ?thesis
    proof (cases "getZkeyFiles e i")
      case (Inl t)
      with c ne show ?thesis by (rule throws2)
    next
      case (Inr bs)
      with c ne show ?thesis by (cases "bs = []") (auto intro: empty2 loop)
    qed
  qed
qed

lemma verifyContribution_results:
  "results (snd (verifyContribution e f i p st)) = results st @ folderOutcomes e i p f"
proof (cases rule: verifyContribution_cases[where e = e and f = f and i = i])
  case (throws1 t)
  then show ?thesis
    by (simp add: verifyContribution_throws1 folderOutcomes_def zkeyFilesOf_def print_def)
next
  case empty1
  then show ?thesis
    by (simp add: verifyContribution_empty1 folderOutcomes_def zkeyFilesOf_def print_def)
next
  case (throws2 cs t)
  then show ?thesis
    by (simp add: verifyContribution_throws2 folderOutcomes_def zkeyFilesOf_def print_def)
next
  case (empty2 cs)
  then show ?thesis
    by (simp add: verifyContribution_empty2 folderOutcomes_def zkeyFilesOf_def print_def)
next
  case (loop cs bs)
  then show ?thesis
    by (simp add: verifyContribution_loop_case folderOutcomes_def zkeyFilesOf_def print_def
        Let_def loop_results getZkeyFiles_nonempty)
qed

lemma verifyContribution_commands:
  "commands (snd (verifyContribution e f i p st)) = commands st @ folderCommands e i p f"
proof (cases rule: verifyContribution_cases[where e = e and f = f and i = i])
  case (throws1 t)
  then show ?thesis
    by (simp add: verifyContribution_throws1 folderCommands_def zkeyFilesOf_def print_def)
next
  case empty1
  then show ?thesis
    by (simp add: verifyContribution_empty1 folderCommands_def zkeyFilesOf_def print_def)
next
  case (throws2 cs t)
  then show ?thesis
    by (simp add: verifyContribution_throws2 folderCommands_def zkeyFilesOf_def print_def)
next
  case (empty2 cs)
  then show ?thesis
    by (simp add: verifyContribution_empty2 folderCommands_def zkeyFilesOf_def print_def)
next
  case (loop cs bs)
  then show ?thesis
    by (simp add: verifyContribution_loop_case folderCommands_def zkeyFilesOf_def print_def
        Let_def loop_commands getZkeyFiles_nonempty)
qed

lemma verifyContribution_returns:
  assumes "listable e f" "listable e i"
  shows "\<not> isl (fst (verifyContribution e f i p st))"
proof (cases rule: verifyContribution_cases[where e = e and f = f and i = i])
  case (throws1 t)
  with assms show ?thesis by (simp add: listable_def)
next
  case empty1
  then show ?thesis by (simp add: verifyContribution_empty1)
next
  case (throws2 cs t)
  with assms show ?thesis by (simp add: listable_def)
next
  case (empty2 cs)
  then show ?thesis by (simp add: verifyContribution_empty2)
next
  case (loop cs bs)
  then show ?thesis by (simp add: verifyContribution_loop_case Let_def)
qed

lemma main_loop_step:
  assumes "k < length folders" "\<not> isl (fst (verifyContribution e (folders ! k) i p st))"
  shows "main_loop e folders i p k st =
         main_loop e folders i p (Suc k) (snd (verifyContribution e (folders ! k) i p st))"
  using assms
  by (subst main_loop.simps) (auto simp add: Let_def split: sum.split)

lemma main_loop_done:
  "\<not> k < length folders \<Longrightarrow> main_loop e folders i p k st = (Inr (), st)"
  by (subst main_loop.simps) simp

lemma main_loop_run:
  assumes "\<forall>f\<in>set (drop k folders). listable e f" "listable e i"
  shows "fst (main_loop e folders i p k st) = Inr ()
       \<and> results (snd (main_loop e folders i p k st)) =
           results st @ concat (map (folderOutcomes e i p) (drop k folders))
       \<and> commands (snd (main_loop e folders i p k st)) =
           commands st @ concat (map (folderCommands e i p) (drop k folders))"
  using assms(1)
proof (induction "length folders - k" arbitrary: k st)
  case 0
  then show ?case by (simp add: main_loop_done)
next
  case (Suc n)
  then have k: "k < length folders" by simp
  then have d: "drop k folders = folders ! k # drop (Suc k) folders"
    by (simp add: Cons_nth_drop_Suc)
  from Suc.prems d have l: "listable e (folders ! k)" "\<forall>f\<in>set (drop (Suc k) folders). listable e f"
    by simp_all
  have r: "\<not> isl (fst (verifyContribution e (folders ! k) i p st))"
    using l(1) assms(2) by (rule verifyContribution_returns)
  have n: "n = length folders - Suc k" using Suc.hyps(2) by simp
  show ?case
    unfolding main_loop_step[OF k r] d
    using Suc.hyps(1)[OF n l(2), of "snd (verifyContribution e (folders ! k) i p st)"]
    by (simp add: verifyContribution_results verifyContribution_commands)
qed

lemma print_keeps:
  "results (print l st) = results st \<and> commands (print l st) = commands st"
  by (simp add: print_def)

lemma printRows_state:
  "results (snd (printRows e groups circuits folders st)) = results st
   \<and> commands (snd (printRows e groups circuits folders st)) = commands st"
  by (induction folders arbitrary: st) (simp_all add: Let_def print_keeps split: sum.split)

lemma print_failures_state:
  "results (foldl (\<lambda>s result. print (g result) s) st xs) = results st
   \<and> commands (foldl (\<lambda>s result. print (g result) s) st xs) = commands st"
  by (induction xs arbitrary: st) (simp_all add: print_keeps)

lemma printResultsTable_state:
  "results (snd (printResultsTable e rs st)) = results st
   \<and> commands (snd (printResultsTable e rs st)) = commands st"
proof (cases "folderGroups e rs")
  case (Inl t)
  then show ?thesis by (simp add: printResultsTable_def print_keeps)
next
  case (Inr groups)
  then show ?thesis
    by (simp add: printResultsTable_def Let_def print_keeps printRows_state
        print_failures_state split: sum.split)
qed

lemma main_catch_state:
  "results (snd (main_catch t st)) = results st \<and> commands (snd (main_catch t st)) = commands st"
  by (simp add: main_catch_def print_keeps)

lemma main_after_loop:
  assumes "getContributionFolders e = Inr folders" and "2 \<le> length folders"
  shows "results (snd (main e (Inr p))) =
           results (snd (main_loop e folders (folders ! 0) p 1
                           (print (FoundContributions (length folders)) initial_state)))"
    and "commands (snd (main e (Inr p))) =
           commands (snd (main_loop e folders (folders ! 0) p 1
                            (print (FoundContributions (length folders)) initial_state)))"
  using assms
  by (simp_all add: main_def Let_def main_catch_state printResultsTable_state split: sum.split)

lemma main_run:
  assumes "getContributionFolders e = Inr folders" and "2 \<le> length folders"
    and "\<forall>f\<in>set folders. listable e f"
  shows "fst (main_loop e folders (folders ! 0) p 1 st) = Inr ()"
    and "results (snd (main e (Inr p))) =
           concat (map (folderOutcomes e (folders ! 0) p) (drop 1 folders))"
    and "commands (snd (main e (Inr p))) =
           concat (map (folderCommands e (folders ! 0) p) (drop 1 folders))"
proof -
  let ?st1 = "print (FoundContributions (length folders)) initial_state"
  have l: "\<forall>f\<in>set (drop 1 folders). listable e f"
    using assms(3) by (meson in_set_dropD)
  from assms(2) have "0 < length folders" by arith
  then have "folders ! 0 \<in> set folders" by (rule nth_mem)
  with assms(3) have b: "listable e (folders ! 0)" by blast
  note run = main_loop_run[OF l b, of p ?st1]
  show "fst (main_loop e folders (folders ! 0) p 1 st) = Inr ()"
    using main_loop_run[OF l b, of p st] by simp
  show "results (snd (main e (Inr p))) =
           concat (map (folderOutcomes e (folders ! 0) p) (drop 1 folders))"
    using run by (simp add: main_after_loop[OF assms(1,2)] print_def initial_state_def)
  show "commands (snd (main e (Inr p))) =
           concat (map (folderCommands e (folders ! 0) p) (drop 1 folders))"
    using run by (simp add: main_after_loop[OF assms(1,2)] print_def initial_state_def)
qed

lemma folderOutcomes_folder:
  "r \<in> set (folderOutcomes e i p f) \<Longrightarrow> contributionFolder r = f"
  by (auto simp: folderOutcomes_def artifactOutcome_def verifierOutcome_def missingOutcome_def
      split: if_splits sum.splits thrown.splits)

lemma example_folders:
  "getContributionFolders example_env = Inr [''0000_initial'', ''0001_alice'', ''0002_bob'']"
  by (simp add: getContributionFolders_def getDirectories_def example_env_def
      contributionRootFolder_def isDigit_def)

lemma example_zkeys:
  "getZkeyFiles example_env ''0000_initial'' = Inr [''a.zkey'', ''b.zkey'']"
  "getZkeyFiles example_env ''0001_alice'' = Inr [''a.zkey'', ''b.zkey'']"
  "getZkeyFiles example_env ''0002_bob'' = Inr [''a.zkey'', ''c.zkey'']"
  by (simp_all add: getZkeyFiles_def example_env_def contributionRootFolder_def path_join_def
      endsWith_def)

lemma example_exec:
  "execSync example_env c =
     (if c = zkvi_command ''contributions/0000_initial/b.zkey'' ''pot.ptau''
               ''contributions/0001_alice/b.zkey''
      then Inl (Error ''Command failed'') else Inr ())"
  by (simp add: example_env_def)

lemma empty_baseline_folders:
  "getContributionFolders empty_baseline_env = Inr [''0000_initial'', ''0001_alice'']"
  by (simp add: getContributionFolders_def getDirectories_def empty_baseline_env_def
      contributionRootFolder_def isDigit_def)

lemma empty_baseline_zkeys:
  "getZkeyFiles empty_baseline_env ''0000_initial'' = Inr []"
  "getZkeyFiles empty_baseline_env ''0001_alice'' = Inr [''a.zkey'']"
  by (simp_all add: getZkeyFiles_def empty_baseline_env_def contributionRootFolder_def
      path_join_def endsWith_def)

lemma folderOutcomes_unfold:
  "folderOutcomes e i p =
     (\<lambda>folder.
        if zkeyFilesOf e folder = [] \<or> zkeyFilesOf e i = [] then []
        else map (\<lambda>zkeyFile.
                    if zkeyFile \<in> set (zkeyFilesOf e i)
                    then verifierOutcome e i p folder zkeyFile
                    else missingOutcome folder zkeyFile)
               (zkeyFilesOf e folder))"
  by (rule ext) (simp add: folderOutcomes_def artifactOutcome_def cong: map_cong)

lemma getContributionFolders_sorted: "getContributionFolders e = Inr folders \<Longrightarrow> sorted folders"
  by (auto simp: getContributionFolders_def split: sum.splits)

lemma sorted_constant: "\<forall>y\<in>set ys. y = x \<Longrightarrow> sorted ys"
  by (induction ys) auto

lemma sorted_concat_blocks:
  assumes "sorted xs" and "\<And>x y. y \<in> set (g x) \<Longrightarrow> y = x"
  shows "sorted (concat (map g xs))"
  using assms(1)
proof (induction xs)
  case Nil
  then show ?case by simp
next
  case (Cons x xs)
  have "\<forall>a\<in>set (g x). \<forall>b\<in>set (concat (map g xs)). a \<le> b"
  proof (intro ballI)
    fix a b
    assume a: "a \<in> set (g x)" and b: "b \<in> set (concat (map g xs))"
    from b obtain y where y: "y \<in> set xs" "b \<in> set (g y)" by auto
    from a y assms(2) have "a = x" "b = y" by blast+
    with y(1) Cons.prems show "a \<le> b" by simp
  qed
  moreover have "sorted (g x)"
    using assms(2)[of _ x] by (intro sorted_constant[of _ x]) blast
  ultimately show ?case using Cons by (simp add: sorted_append)
qed

lemma folderOutcomes_keys:
  "map (\<lambda>r. (contributionFolder r, circuitName r)) (folderOutcomes e i p f) =
     (if zkeyFilesOf e f = [] \<or> zkeyFilesOf e i = [] then []
      else map (\<lambda>z. (f, basename_ext z ''.zkey'')) (zkeyFilesOf e f))"
  by (simp add: folderOutcomes_def artifactOutcome_def verifierOutcome_def missingOutcome_def
      stem_def split: sum.split thrown.split)

lemma getZkeyFiles_endsWith:
  "getZkeyFiles e d = Inr fs \<Longrightarrow> \<forall>z\<in>set fs. endsWith z ''.zkey''"
  by (auto simp: getZkeyFiles_def Let_def split: sum.splits)

lemma basename_plain:
  assumes "CHR ''/'' \<notin> set n"
  shows "basename n = n"
proof -
  from assms have d: "dropWhile (\<lambda>c. c = CHR ''/'') (rev n) = rev n"
    by (cases "rev n") (auto simp: dropWhile_eq_self_iff)
  from assms have t: "takeWhile (\<lambda>c. c \<noteq> CHR ''/'') (rev n) = rev n"
    by (auto simp: takeWhile_eq_all_conv)
  show ?thesis
    by (simp only: basename_def d t rev_rev_ident)
qed

lemma basename_ext_plain:
  assumes "CHR ''/'' \<notin> set n" and "endsWith n ext" and "ext \<noteq> []"
  shows "basename_ext n ext = take (length n - length ext) n"
proof (cases "n = ext")
  case True
  with assms(3) show ?thesis by (simp add: basename_ext_def)
next
  case False
  from assms(2) have "\<not> length n < length ext" by (simp add: endsWith_def)
  with False assms show ?thesis
    by (simp add: basename_ext_def basename_plain Let_def)
qed

lemma basename_ext_inj:
  assumes "CHR ''/'' \<notin> set a" "endsWith a ext" "CHR ''/'' \<notin> set b" "endsWith b ext"
    and "ext \<noteq> []" and "basename_ext a ext = basename_ext b ext"
  shows "a = b"
proof -
  from assms have t: "take (length a - length ext) a = take (length b - length ext) b"
    by (simp add: basename_ext_plain)
  from assms(2,4) have d: "drop (length a - length ext) a = ext" "drop (length b - length ext) b = ext"
    by (simp_all add: endsWith_def)
  have "a = take (length a - length ext) a @ drop (length a - length ext) a"
    by (simp only: append_take_drop_id)
  also have "\<dots> = take (length b - length ext) b @ drop (length b - length ext) b"
    by (simp only: t d)
  also have "\<dots> = b" by (simp only: append_take_drop_id)
  finally show ?thesis .
qed

lemma getZkeyFiles_execSync [simp]:
  "getZkeyFiles (e\<lparr>execSync := x\<rparr>) d = getZkeyFiles e d"
  by (simp add: getZkeyFiles_def)

lemma getContributionFolders_execSync [simp]:
  "getContributionFolders (e\<lparr>execSync := x\<rparr>) = getContributionFolders e"
  by (simp add: getContributionFolders_def getDirectories_def)

lemma zkeyFilesOf_execSync [simp]: "zkeyFilesOf (e\<lparr>execSync := x\<rparr>) d = zkeyFilesOf e d"
  by (simp add: zkeyFilesOf_def)

lemma listable_execSync [simp]: "listable (e\<lparr>execSync := x\<rparr>) d = listable e d"
  by (simp add: listable_def)

lemma verifierOutcome_cong:
  assumes "execSync e' (zkvi_command (artifactPath i z) p (artifactPath f z)) =
           execSync e (zkvi_command (artifactPath i z) p (artifactPath f z))"
  shows "verifierOutcome e' i p f z = verifierOutcome e i p f z"
  using assms by (simp add: verifierOutcome_def)

lemma folderOutcomes_execSync:
  assumes "\<forall>z\<in>set (zkeyFilesOf e f).
             x (zkvi_command (artifactPath i z) p (artifactPath f z)) =
             execSync e (zkvi_command (artifactPath i z) p (artifactPath f z))"
  shows "folderOutcomes (e\<lparr>execSync := x\<rparr>) i p f = folderOutcomes e i p f"
proof -
  have "artifactOutcome (e\<lparr>execSync := x\<rparr>) i p bs f z = artifactOutcome e i p bs f z"
    if "z \<in> set (zkeyFilesOf e f)" for z bs
  proof -
    from assms that have "execSync (e\<lparr>execSync := x\<rparr>)
            (zkvi_command (artifactPath i z) p (artifactPath f z)) =
          execSync e (zkvi_command (artifactPath i z) p (artifactPath f z))"
      by simp
    then have "verifierOutcome (e\<lparr>execSync := x\<rparr>) i p f z = verifierOutcome e i p f z"
      by (rule verifierOutcome_cong)
    then show ?thesis by (simp only: artifactOutcome_def)
  qed
  then have m: "map (artifactOutcome (e\<lparr>execSync := x\<rparr>) i p bs f) (zkeyFilesOf e f) =
                map (artifactOutcome e i p bs f) (zkeyFilesOf e f)" for bs
    by (intro map_cong[OF refl])
  show ?thesis
    by (simp only: folderOutcomes_def zkeyFilesOf_execSync m)
qed

lemma concat_map_member: "x \<in> set xs \<Longrightarrow> y \<in> set (g x) \<Longrightarrow> y \<in> set (concat (map g xs))"
  by (induction xs) auto

lemma verifierOutcome_thrown:
  assumes "execSync e (zkvi_command (artifactPath i z) p (artifactPath f z)) = Inl t"
  shows "verifierOutcome e i p f z =
           \<lparr>contributionFolder = f, circuitName = basename_ext z ''.zkey'', success = False,
            errorMessage = Some (case t of Error message \<Rightarrow> message
                                 | NonError \<Rightarrow> ''Unknown error'')\<rparr>"
  using assms by (simp add: verifierOutcome_def stem_def split: thrown.split)

lemma folderOutcomes_member:
  assumes "z \<in> set (zkeyFilesOf e f)" "z \<in> set (zkeyFilesOf e i)"
  shows "verifierOutcome e i p f z \<in> set (folderOutcomes e i p f)"
proof -
  let ?g = "artifactOutcome e i p (zkeyFilesOf e i) f"
  from assms(1) have "?g z \<in> ?g ` set (zkeyFilesOf e f)" by (rule imageI)
  moreover have "?g z = verifierOutcome e i p f z"
    using assms(2) by (simp add: artifactOutcome_def)
  moreover from assms(1) have "zkeyFilesOf e f \<noteq> []" by (cases "zkeyFilesOf e f") simp_all
  moreover from assms(2) have "zkeyFilesOf e i \<noteq> []" by (cases "zkeyFilesOf e i") simp_all
  ultimately show ?thesis by (simp add: folderOutcomes_def)
qed

lemma setValues_snoc:
  "setValues (xs @ [x]) = (if x \<in> set xs then setValues xs else setValues xs @ [x])"
  by (simp add: setValues_def)

lemma set_setValues [simp]: "set (setValues xs) = set xs"
  by (simp add: setValues_def)

lemma distinct_setValues [simp]: "distinct (setValues xs)"
  by (simp add: setValues_def)

lemma map_of_groupsOf:
  "map_of (groupsOf rs) k =
     (if k \<in> set (map contributionFolder rs)
      then Some (filter (\<lambda>r. contributionFolder r = k) rs) else None)"
  unfolding groupsOf_def
  by (simp only: map_of_map_restrict restrict_map_def set_setValues o_def split: if_split)

lemma groupPush_groupsOf:
  assumes "contributionFolder r \<notin> set objectPrototypeNames"
  shows "groupPush e (groupsOf rs) r = Inr (groupsOf (rs @ [r]))"
proof (cases "contributionFolder r \<in> set (map contributionFolder rs)")
  case True
  then have s: "setValues (map contributionFolder rs @ [contributionFolder r]) =
                setValues (map contributionFolder rs)"
    by (simp add: setValues_snoc)
  have p: "(\<lambda>x. if x = contributionFolder r
              then (x, filter (\<lambda>q. contributionFolder q = x) rs @ [r])
              else (x, filter (\<lambda>q. contributionFolder q = x) rs)) =
           (\<lambda>k. (k, filter (\<lambda>q. contributionFolder q = k) rs @
                  (if contributionFolder r = k then [r] else [])))"
    by (rule ext) auto
  from True have m: "map_of (groupsOf rs) (contributionFolder r) \<noteq> None"
    by (simp only: map_of_groupsOf) simp
  show ?thesis
    unfolding groupPush_def Let_def
    by (simp only: m assms if_False simp_thms) (simp add: groupsOf_def s p o_def)
next
  case False
  then have s: "setValues (map contributionFolder rs @ [contributionFolder r]) =
                setValues (map contributionFolder rs) @ [contributionFolder r]"
    by (simp add: setValues_snoc)
  from False have m: "map_of (groupsOf rs) (contributionFolder r) = None"
    by (simp only: map_of_groupsOf) simp
  from False have e: "filter (\<lambda>q. contributionFolder q = contributionFolder r) rs = []"
    by (induction rs) auto
  from False have n: "\<forall>k\<in>set (setValues (map contributionFolder rs)). k \<noteq> contributionFolder r"
    by (simp only: set_setValues) blast
  show ?thesis
    unfolding groupPush_def Let_def
    using False
    by (simp only: m assms if_True if_False refl simp_thms)
       (auto simp add: groupsOf_def s e n o_def cong: map_cong)
qed

lemma reduce_groupPush_groupsOf:
  assumes "\<forall>r\<in>set rs. contributionFolder r \<notin> set objectPrototypeNames"
  shows "reduce_groupPush e (groupsOf pre) rs = Inr (groupsOf (pre @ rs))"
  using assms
proof (induction rs arbitrary: pre)
  case Nil
  show ?case by simp
next
  case (Cons r rs)
  from Cons.prems have r: "contributionFolder r \<notin> set objectPrototypeNames"
    and rest: "\<forall>q\<in>set rs. contributionFolder q \<notin> set objectPrototypeNames" by simp_all
  show ?case
    using Cons.IH[OF rest, of "pre @ [r]"]
    by (simp add: groupPush_groupsOf[OF r])
qed

lemma folderGroups_groupsOf:
  assumes "\<forall>r\<in>set rs. contributionFolder r \<notin> set objectPrototypeNames"
  shows "folderGroups e rs = Inr (groupsOf rs)"
proof -
  have "groupsOf [] = []" by (simp add: groupsOf_def setValues_def)
  with reduce_groupPush_groupsOf[OF assms, of e "[]"] show ?thesis
    by (simp add: folderGroups_def)
qed

lemma tableCells_plain:
  assumes "\<forall>c\<in>set cs. c \<notin> set objectPrototypeNames"
  shows "tableCells e own cs =
           Inr (map (\<lambda>circuit. case own circuit of Some c \<Rightarrow> c | None \<Rightarrow> NA) cs)"
  using assms
  by (induction cs) (simp_all add: tableCell_def split: option.split)

lemma printRows_plain:
  assumes "\<forall>c\<in>set circuits. c \<notin> set objectPrototypeNames"
  shows "printRows e groups circuits folders st =
           (Inr (),
            st\<lparr>console := console st @
                 map (\<lambda>folder.
                        TableRow folder
                          (map (\<lambda>circuit.
                                  case resultByCircuit
                                         (case map_of groups folder of Some v \<Rightarrow> v | None \<Rightarrow> [])
                                         circuit of
                                    Some c \<Rightarrow> c | None \<Rightarrow> NA)
                             circuits))
                   folders\<rparr>)"
  by (induction folders arbitrary: st)
     (simp_all add: Let_def tableCells_plain[OF assms] print_def)

lemma digit_code: "isDigit c \<Longrightarrow> of_char c = 48 + digitValue c \<and> digitValue c \<le> 9"
  by (auto simp: isDigit_def digitValue_def)

lemma digit_less:
  assumes "isDigit a" "isDigit b"
  shows "a < b \<longleftrightarrow> digitValue a < digitValue b"
  using digit_code[OF assms(1)] digit_code[OF assms(2)] by (simp add: less_char_def)

lemma digit_eq:
  assumes "isDigit a" "isDigit b"
  shows "a = b \<longleftrightarrow> digitValue a = digitValue b"
proof -
  have "a = b \<longleftrightarrow> (of_char a :: nat) = of_char b" by simp
  then show ?thesis
    using digit_code[OF assms(1)] digit_code[OF assms(2)] by simp
qed

lemma matchOrdinalPrefix_elim:
  assumes "matchOrdinalPrefix s"
  obtains a b c d rest where "s = a # b # c # d # CHR ''_'' # rest"
    "isDigit a" "isDigit b" "isDigit c" "isDigit d"
  using assms by (cases s rule: matchOrdinalPrefix.cases) auto

lemma ordinal_le:
  assumes "matchOrdinalPrefix s" "matchOrdinalPrefix t" "s \<le> t"
  shows "ordinalOf s \<le> ordinalOf t"
proof -
  from assms(1) obtain a b c d r where s: "s = a # b # c # d # CHR ''_'' # r"
    and ds: "isDigit a" "isDigit b" "isDigit c" "isDigit d" by (rule matchOrdinalPrefix_elim)
  from assms(2) obtain a' b' c' d' r' where t: "t = a' # b' # c' # d' # CHR ''_'' # r'"
    and dt: "isDigit a'" "isDigit b'" "isDigit c'" "isDigit d'" by (rule matchOrdinalPrefix_elim)
  note bounds = digit_code[OF ds(1)] digit_code[OF ds(2)] digit_code[OF ds(3)] digit_code[OF ds(4)]
    digit_code[OF dt(1)] digit_code[OF dt(2)] digit_code[OF dt(3)] digit_code[OF dt(4)]
  from assms(3) have
    "digitValue a < digitValue a' \<or> digitValue a = digitValue a' \<and>
      (digitValue b < digitValue b' \<or> digitValue b = digitValue b' \<and>
        (digitValue c < digitValue c' \<or> digitValue c = digitValue c' \<and>
          digitValue d \<le> digitValue d'))"
    unfolding s t
    by (auto simp: digit_less[OF ds(1) dt(1)] digit_less[OF ds(2) dt(2)]
        digit_less[OF ds(3) dt(3)] digit_less[OF ds(4) dt(4)]
        digit_eq[OF ds(1) dt(1)] digit_eq[OF ds(2) dt(2)] digit_eq[OF ds(3) dt(3)]
        digit_eq[OF ds(4) dt(4)])
  with bounds show ?thesis unfolding s t by (simp only: ordinalOf.simps) arith
qed

lemma ordinal_less:
  assumes "matchOrdinalPrefix s" "matchOrdinalPrefix t" "ordinalOf s < ordinalOf t"
  shows "s < t"
proof (rule ccontr)
  assume "\<not> s < t"
  then have "t \<le> s" by simp
  from ordinal_le[OF assms(2) assms(1) this] assms(3) show False by simp
qed

lemma sorted_map_ordinal:
  assumes "sorted fs" "\<forall>f\<in>set fs. matchOrdinalPrefix f"
  shows "sorted (map ordinalOf fs)"
  using assms
proof (induction fs)
  case Nil
  then show ?case by simp
next
  case (Cons f fs)
  then show ?case by (auto intro: ordinal_le)
qed

lemma example_listing:
  "readdirSyncWithFileTypes example_env contributionRootFolder =
     Inr [\<lparr>name = ''0002_bob'', isDirectory = True\<rparr>,
          \<lparr>name = ''0000_initial'', isDirectory = True\<rparr>,
          \<lparr>name = ''0003_notes.txt'', isDirectory = False\<rparr>,
          \<lparr>name = ''0001_alice'', isDirectory = True\<rparr>,
          \<lparr>name = ''tmp'', isDirectory = True\<rparr>]"
  by (simp add: example_env_def contributionRootFolder_def)

lemma initial_console: "console initial_state = []"
  by (simp add: initial_state_def)

lemma print_console: "console (print l st) = console st @ [l]"
  by (simp add: print_def)

lemma print_failures_console:
  "console (foldl (\<lambda>s result. print (g result) s) st xs) = console st @ map g xs"
  by (induction xs arbitrary: st) (simp_all add: print_def)

lemma tableRowsOf_Nil: "tableRowsOf [] = []"
  by (simp add: tableRowsOf_def)

lemma tableRowsOf_Cons: "tableRowsOf (l # ls) = rowOfLine l @ tableRowsOf ls"
  by (simp add: tableRowsOf_def)

lemma tableHeadersOf_Nil: "tableHeadersOf [] = []"
  by (simp add: tableHeadersOf_def)

lemma tableHeadersOf_Cons: "tableHeadersOf (l # ls) = headersOfLine l @ tableHeadersOf ls"
  by (simp add: tableHeadersOf_def)

lemma tableRowsOf_append: "tableRowsOf (xs @ ys) = tableRowsOf xs @ tableRowsOf ys"
  by (simp add: tableRowsOf_def)

lemma tableRowsOf_rows: "tableRowsOf (map (\<lambda>f. TableRow f (c f)) fs) = map (\<lambda>f. (f, c f)) fs"
  by (induction fs) (simp_all add: tableRowsOf_def)

lemma tableRowsOf_failures:
  "tableRowsOf (map (\<lambda>r. FailedVerification (a r) (b r) (c r)) xs) = []"
  by (induction xs) (simp_all add: tableRowsOf_def)

lemma tableHeadersOf_append: "tableHeadersOf (xs @ ys) = tableHeadersOf xs @ tableHeadersOf ys"
  by (simp add: tableHeadersOf_def)

lemma tableHeadersOf_rows: "tableHeadersOf (map (\<lambda>f. TableRow f (c f)) fs) = []"
  by (induction fs) (simp_all add: tableHeadersOf_def)

lemma tableHeadersOf_failures:
  "tableHeadersOf (map (\<lambda>r. FailedVerification (a r) (b r) (c r)) xs) = []"
  by (induction xs) (simp_all add: tableHeadersOf_def)

lemma printResultsTable_plain:
  assumes "\<forall>r\<in>set rs. contributionFolder r \<notin> set objectPrototypeNames
                     \<and> circuitName r \<notin> set objectPrototypeNames"
  shows "fst (printResultsTable e rs st) = Inr ()"
    and "console (snd (printResultsTable e rs st)) =
           console st @
           [SummaryHeading,
            TableHeader (foldr max (map length (setValues (map contributionFolder rs))) 20)
              (foldr max (map length (sort (setValues (map circuitName rs)))) 15)
              (sort (setValues (map circuitName rs))),
            TableSeparator (foldr max (map length (setValues (map contributionFolder rs))) 20)
              (foldr max (map length (sort (setValues (map circuitName rs)))) 15)
              (length (sort (setValues (map circuitName rs))))] @
           map (\<lambda>folder. TableRow folder (rowCells rs folder))
             (sort (setValues (map contributionFolder rs))) @
           [OverallResults (length rs) (length (filter success rs))
              (length rs - length (filter success rs))] @
           (if length rs - length (filter success rs) > 0
            then FailedVerificationsHeading #
                 map (\<lambda>r. FailedVerification (contributionFolder r) (circuitName r)
                             (failureText r))
                   (filter (\<lambda>r. \<not> success r) rs)
            else [])"
proof -
  from assms have f: "\<forall>r\<in>set rs. contributionFolder r \<notin> set objectPrototypeNames" by blast
  have g: "folderGroups e rs = Inr (groupsOf rs)" by (rule folderGroups_groupsOf[OF f])
  have c: "\<forall>c\<in>set (allCircuits rs). c \<notin> set objectPrototypeNames"
  proof
    fix c assume "c \<in> set (allCircuits rs)"
    then have "c \<in> circuitName ` set rs" by (simp add: allCircuits_def)
    then obtain r where "r \<in> set rs" "c = circuitName r" by (rule imageE)
    with assms show "c \<notin> set objectPrototypeNames" by blast
  qed
  have k: "map fst (groupsOf rs) = setValues (map contributionFolder rs)"
    by (simp add: groupsOf_def o_def)
  have rows: "map (\<lambda>folder.
                TableRow folder
                  (map (\<lambda>circuit.
                          case resultByCircuit
                                 (case map_of (groupsOf rs) folder of Some v \<Rightarrow> v | None \<Rightarrow> [])
                                 circuit of
                            Some c \<Rightarrow> c | None \<Rightarrow> NA)
                     (allCircuits rs)))
              (sort (setValues (map contributionFolder rs))) =
             map (\<lambda>folder. TableRow folder (rowCells rs folder))
               (sort (setValues (map contributionFolder rs)))"
  proof (rule map_cong[OF refl])
    fix folder assume "folder \<in> set (sort (setValues (map contributionFolder rs)))"
    then have "folder \<in> set (map contributionFolder rs)" by simp
    then have "map_of (groupsOf rs) folder = Some (filter (\<lambda>r. contributionFolder r = folder) rs)"
      by (simp only: map_of_groupsOf if_True)
    then show "TableRow folder
                  (map (\<lambda>circuit.
                          case resultByCircuit
                                 (case map_of (groupsOf rs) folder of Some v \<Rightarrow> v | None \<Rightarrow> [])
                                 circuit of
                            Some c \<Rightarrow> c | None \<Rightarrow> NA)
                     (allCircuits rs)) = TableRow folder (rowCells rs folder)"
      by (simp only: rowCells_def allCircuits_def option.case)
  qed
  note pr = printRows_plain[OF c, of e "groupsOf rs" "sort (setValues (map contributionFolder rs))"]
  show "fst (printResultsTable e rs st) = Inr ()"
    by (simp add: printResultsTable_def Let_def g k pr)
  show "console (snd (printResultsTable e rs st)) =
           console st @
           [SummaryHeading,
            TableHeader (foldr max (map length (setValues (map contributionFolder rs))) 20)
              (foldr max (map length (sort (setValues (map circuitName rs)))) 15)
              (sort (setValues (map circuitName rs))),
            TableSeparator (foldr max (map length (setValues (map contributionFolder rs))) 20)
              (foldr max (map length (sort (setValues (map circuitName rs)))) 15)
              (length (sort (setValues (map circuitName rs))))] @
           map (\<lambda>folder. TableRow folder (rowCells rs folder))
             (sort (setValues (map contributionFolder rs))) @
           [OverallResults (length rs) (length (filter success rs))
              (length rs - length (filter success rs))] @
           (if length rs - length (filter success rs) > 0
            then FailedVerificationsHeading #
                 map (\<lambda>r. FailedVerification (contributionFolder r) (circuitName r)
                             (failureText r))
                   (filter (\<lambda>r. \<not> success r) rs)
            else [])"
    by (simp add: printResultsTable_def Let_def g k pr[unfolded allCircuits_def]
        rows[unfolded allCircuits_def] print_failures_console print_console allCircuits_def)
qed

section \<open>Properties\<close>



text \<open>
  C2 (as amended). The commands handed to the external verifier during a run are, for
  every contribution folder at chain position 1 and above in order and every artifact of
  that folder that the baseline also lists, the \<^verbatim>\<open>zkvi\<close> command on the path of the
  same-named artifact of the baseline (position 0), the public-parameters file, and the
  path of the folder's artifact. The first argument is always the artifact of the initial
  folder, which is the predecessor only for the contribution at position 1.
\<close>

theorem C2_pairs_against_baseline:
  assumes "getContributionFolders e = Inr folders" and "2 \<le> length folders"
    and "\<forall>f\<in>set folders. listable e f"
  shows "commands (snd (main e (Inr ptauFile))) =
           concat (map (\<lambda>folder.
                     map (\<lambda>zkeyFile.
                            zkvi_command
                              (path_join [contributionRootFolder, folders ! 0, zkeyFile])
                              ptauFile
                              (path_join [contributionRootFolder, folder, zkeyFile]))
                       (filter (\<lambda>zkeyFile. zkeyFile \<in> set (zkeyFilesOf e (folders ! 0)))
                          (zkeyFilesOf e folder)))
                   (drop 1 folders))"
proof -
  have "folderCommands e (folders ! 0) ptauFile =
          (\<lambda>folder.
             map (\<lambda>zkeyFile.
                    zkvi_command
                      (path_join [contributionRootFolder, folders ! 0, zkeyFile])
                      ptauFile
                      (path_join [contributionRootFolder, folder, zkeyFile]))
               (filter (\<lambda>zkeyFile. zkeyFile \<in> set (zkeyFilesOf e (folders ! 0)))
                  (zkeyFilesOf e folder)))"
    by (rule ext) (simp add: folderCommands_def artifactPath_def)
  then show ?thesis
    by (simp only: main_run(3)[OF assms])
qed

theorem C2_pairs_against_baseline_witness:
  "getContributionFolders example_env = Inr [''0000_initial'', ''0001_alice'', ''0002_bob'']
   \<and> commands (snd (main example_env (Inr ''pot.ptau''))) =
       [zkvi_command ''contributions/0000_initial/a.zkey'' ''pot.ptau''
          ''contributions/0001_alice/a.zkey'',
        zkvi_command ''contributions/0000_initial/b.zkey'' ''pot.ptau''
          ''contributions/0001_alice/b.zkey'',
        zkvi_command ''contributions/0000_initial/a.zkey'' ''pot.ptau''
          ''contributions/0002_bob/a.zkey'']"
  using C2_pairs_against_baseline[of example_env
          "[''0000_initial'', ''0001_alice'', ''0002_bob'']" "''pot.ptau''"]
  by (simp add: example_folders example_zkeys listable_def zkeyFilesOf_def
      path_join_def contributionRootFolder_def)

text \<open>
  The claim as stated fails from the second contribution on: \<^verbatim>\<open>0002_bob\<close> is at position 2,
  its predecessor \<^verbatim>\<open>0001_alice\<close> has an artifact of the same name, and the verifier is run
  on the artifact of \<^verbatim>\<open>0000_initial\<close>, never on the predecessor's.
\<close>

theorem C2_counterexample:
  "getContributionFolders example_env = Inr [''0000_initial'', ''0001_alice'', ''0002_bob'']
   \<and> ''a.zkey'' \<in> set (zkeyFilesOf example_env ''0001_alice'')
   \<and> ''a.zkey'' \<in> set (zkeyFilesOf example_env ''0002_bob'')
   \<and> zkvi_command ''contributions/0001_alice/a.zkey'' ''pot.ptau''
         ''contributions/0002_bob/a.zkey''
       \<notin> set (commands (snd (main example_env (Inr ''pot.ptau''))))
   \<and> zkvi_command ''contributions/0000_initial/a.zkey'' ''pot.ptau''
         ''contributions/0002_bob/a.zkey''
       \<in> set (commands (snd (main example_env (Inr ''pot.ptau''))))"
  by code_simp

text \<open>
  C3 (as amended). Take a run over three or more folders whose artifact listings all
  succeed, and change the behaviour of the external verifier in any way on the artifacts
  of the folders up to chain position \<open>k\<close> (making it exit with a non-zero status or throw
  there), leaving it as it is on the folders after \<open>k\<close>. Then the loop over the folders
  still runs to its end without throwing; every command on which the verifier throws, in
  any contribution folder, gives an outcome with \<open>success = False\<close> and the message of the
  thrown error (or \<^verbatim>\<open>Unknown error\<close>); and the outcomes recorded for the folders after \<open>k\<close>
  are all present, at the end of the list, and are the same as in the run without the
  change. The errors that are captured are those of the external verifier.
\<close>

theorem C3_partial_failure:
  assumes "getContributionFolders e = Inr folders" and "3 \<le> length folders"
    and "\<forall>f\<in>set folders. listable e f"
    and "1 \<le> k" and "Suc k < length folders"
    and "\<forall>f\<in>set (drop (Suc k) folders). \<forall>z\<in>set (zkeyFilesOf e f).
           x (zkvi_command (artifactPath (folders ! 0) z) ptauFile (artifactPath f z)) =
           execSync e (zkvi_command (artifactPath (folders ! 0) z) ptauFile (artifactPath f z))"
  shows "fst (main_loop (e\<lparr>execSync := x\<rparr>) folders (folders ! 0) ptauFile 1 st) = Inr ()
    \<and> results (snd (main (e\<lparr>execSync := x\<rparr>) (Inr ptauFile))) =
        concat (map (folderOutcomes (e\<lparr>execSync := x\<rparr>) (folders ! 0) ptauFile)
                  (take k (drop 1 folders)))
        @ concat (map (folderOutcomes e (folders ! 0) ptauFile) (drop (Suc k) folders))
    \<and> results (snd (main e (Inr ptauFile))) =
        concat (map (folderOutcomes e (folders ! 0) ptauFile) (take k (drop 1 folders)))
        @ concat (map (folderOutcomes e (folders ! 0) ptauFile) (drop (Suc k) folders))
    \<and> (\<forall>f\<in>set (drop 1 folders). \<forall>z\<in>set (zkeyFilesOf e f).
          z \<in> set (zkeyFilesOf e (folders ! 0)) \<longrightarrow>
          (\<forall>t. x (zkvi_command (artifactPath (folders ! 0) z) ptauFile (artifactPath f z)) = Inl t
             \<longrightarrow> \<lparr>contributionFolder = f, circuitName = basename_ext z ''.zkey'',
                   success = False,
                   errorMessage = Some (case t of Error message \<Rightarrow> message
                                        | NonError \<Rightarrow> ''Unknown error'')\<rparr>
                 \<in> set (results (snd (main (e\<lparr>execSync := x\<rparr>) (Inr ptauFile))))))"
proof -
  let ?e' = "e\<lparr>execSync := x\<rparr>"
  have f': "getContributionFolders ?e' = Inr folders" using assms(1) by simp
  have l': "\<forall>f\<in>set folders. listable ?e' f" using assms(3) by simp
  from assms(2) have two: "2 \<le> length folders" by arith
  note run' = main_run[OF f' two l', of ptauFile]
  note run = main_run[OF assms(1) two assms(3), of ptauFile]
  have split: "drop 1 folders = take k (drop 1 folders) @ drop (Suc k) folders"
  proof -
    have "drop (Suc k) folders = drop k (drop 1 folders)" by simp
    then show ?thesis by (simp only: append_take_drop_id)
  qed
  have later: "map (folderOutcomes ?e' (folders ! 0) ptauFile) (drop (Suc k) folders) =
               map (folderOutcomes e (folders ! 0) ptauFile) (drop (Suc k) folders)"
  proof (rule map_cong[OF refl])
    fix f assume "f \<in> set (drop (Suc k) folders)"
    with assms(6) have "\<forall>z\<in>set (zkeyFilesOf e f).
           x (zkvi_command (artifactPath (folders ! 0) z) ptauFile (artifactPath f z)) =
           execSync e (zkvi_command (artifactPath (folders ! 0) z) ptauFile (artifactPath f z))"
      by (rule bspec)
    then show "folderOutcomes ?e' (folders ! 0) ptauFile f =
               folderOutcomes e (folders ! 0) ptauFile f"
      by (rule folderOutcomes_execSync)
  qed
  have r': "results (snd (main ?e' (Inr ptauFile))) =
        concat (map (folderOutcomes ?e' (folders ! 0) ptauFile) (take k (drop 1 folders)))
        @ concat (map (folderOutcomes e (folders ! 0) ptauFile) (drop (Suc k) folders))"
    unfolding run'(2) by (subst split) (simp only: map_append concat_append later)
  have r: "results (snd (main e (Inr ptauFile))) =
        concat (map (folderOutcomes e (folders ! 0) ptauFile) (take k (drop 1 folders)))
        @ concat (map (folderOutcomes e (folders ! 0) ptauFile) (drop (Suc k) folders))"
    unfolding run(2) by (subst split) (simp only: map_append concat_append)
  have c: "\<forall>f\<in>set (drop 1 folders). \<forall>z\<in>set (zkeyFilesOf e f).
          z \<in> set (zkeyFilesOf e (folders ! 0)) \<longrightarrow>
          (\<forall>t. x (zkvi_command (artifactPath (folders ! 0) z) ptauFile (artifactPath f z)) = Inl t
             \<longrightarrow> \<lparr>contributionFolder = f, circuitName = basename_ext z ''.zkey'',
                   success = False,
                   errorMessage = Some (case t of Error message \<Rightarrow> message
                                        | NonError \<Rightarrow> ''Unknown error'')\<rparr>
                 \<in> set (results (snd (main ?e' (Inr ptauFile)))))"
  proof (intro ballI impI allI)
    fix f z t
    assume f: "f \<in> set (drop 1 folders)" and z: "z \<in> set (zkeyFilesOf e f)"
      and b: "z \<in> set (zkeyFilesOf e (folders ! 0))"
      and t: "x (zkvi_command (artifactPath (folders ! 0) z) ptauFile (artifactPath f z)) = Inl t"
    from t have "execSync ?e' (zkvi_command (artifactPath (folders ! 0) z) ptauFile
                   (artifactPath f z)) = Inl t" by simp
    note o = verifierOutcome_thrown[OF this]
    have "verifierOutcome ?e' (folders ! 0) ptauFile f z
            \<in> set (folderOutcomes ?e' (folders ! 0) ptauFile f)"
      using z b by (simp add: folderOutcomes_member)
    with f have "verifierOutcome ?e' (folders ! 0) ptauFile f z
            \<in> set (results (snd (main ?e' (Inr ptauFile))))"
      unfolding run'(2) by (rule concat_map_member)
    then show "\<lparr>contributionFolder = f, circuitName = basename_ext z ''.zkey'',
                   success = False,
                   errorMessage = Some (case t of Error message \<Rightarrow> message
                                        | NonError \<Rightarrow> ''Unknown error'')\<rparr>
                 \<in> set (results (snd (main ?e' (Inr ptauFile))))"
      by (simp only: o)
  qed
  from run'(1) r' r c show ?thesis by (intro conjI)
qed


theorem C3_partial_failure_witness:
  "getContributionFolders passing_env = Inr [''0000_initial'', ''0001_alice'', ''0002_bob'']
   \<and> execSync example_env
         (zkvi_command (artifactPath ''0000_initial'' ''b.zkey'') ''pot.ptau''
            (artifactPath ''0001_alice'' ''b.zkey'')) = Inl (Error ''Command failed'')
   \<and> fst (main_loop (passing_env\<lparr>execSync := execSync example_env\<rparr>)
           [''0000_initial'', ''0001_alice'', ''0002_bob''] ''0000_initial'' ''pot.ptau'' 1
           initial_state) = Inr ()
   \<and> results (snd (main (passing_env\<lparr>execSync := execSync example_env\<rparr>) (Inr ''pot.ptau''))) =
       [\<lparr>contributionFolder = ''0001_alice'', circuitName = ''a'', success = True,
          errorMessage = None\<rparr>,
        \<lparr>contributionFolder = ''0001_alice'', circuitName = ''b'', success = False,
          errorMessage = Some ''Command failed''\<rparr>,
        \<lparr>contributionFolder = ''0002_bob'', circuitName = ''a'', success = True,
          errorMessage = None\<rparr>,
        \<lparr>contributionFolder = ''0002_bob'', circuitName = ''c'', success = False,
          errorMessage = Some ''Missing initial zkey file''\<rparr>]
   \<and> results (snd (main passing_env (Inr ''pot.ptau''))) =
       [\<lparr>contributionFolder = ''0001_alice'', circuitName = ''a'', success = True,
          errorMessage = None\<rparr>,
        \<lparr>contributionFolder = ''0001_alice'', circuitName = ''b'', success = True,
          errorMessage = None\<rparr>,
        \<lparr>contributionFolder = ''0002_bob'', circuitName = ''a'', success = True,
          errorMessage = None\<rparr>,
        \<lparr>contributionFolder = ''0002_bob'', circuitName = ''c'', success = False,
          errorMessage = Some ''Missing initial zkey file''\<rparr>]"
  using C3_partial_failure[of passing_env "[''0000_initial'', ''0001_alice'', ''0002_bob'']" 1
          "execSync example_env" "''pot.ptau''" initial_state]
  by (simp add: passing_env_def example_folders example_zkeys example_exec listable_def
      zkeyFilesOf_def folderOutcomes_def artifactOutcome_def
      verifierOutcome_def missingOutcome_def stem_def basename_ext_def basename_def endsWith_def
      artifactPath_def path_join_def contributionRootFolder_def zkvi_command_def)

text \<open>
  The claim as stated fails for an error that is raised inside the loop over the folders
  and does not come from the verifier: \<^verbatim>\<open>0002_bob\<close> cannot be listed, the exception of
  \<^verbatim>\<open>readdirSync\<close> leaves \<^verbatim>\<open>verifyContribution\<close> and the loop, the run ends with exit status 1
  after the one outcome of \<^verbatim>\<open>0001_alice\<close>, and the later folder \<^verbatim>\<open>0003_carol\<close>, whose
  artifact the baseline has too, gets no outcome.
\<close>

theorem C3_counterexample:
  "getContributionFolders unlistable_env =
     Inr [''0000_initial'', ''0001_alice'', ''0002_bob'', ''0003_carol'']
   \<and> getZkeyFiles unlistable_env ''0002_bob'' = Inl (Error ''EACCES: permission denied, scandir'')
   \<and> getZkeyFiles unlistable_env ''0003_carol'' = Inr [''a.zkey'']
   \<and> getZkeyFiles unlistable_env ''0000_initial'' = Inr [''a.zkey'']
   \<and> fst (main unlistable_env (Inr ''pot.ptau'')) = ProcessExit 1
   \<and> results (snd (main unlistable_env (Inr ''pot.ptau''))) =
       [\<lparr>contributionFolder = ''0001_alice'', circuitName = ''a'', success = True,
          errorMessage = None\<rparr>]"
  by code_simp

text \<open>
  C4. Matching is driven by the current folder. When the current folder and the baseline
  both list at least one artifact, \<^verbatim>\<open>verifyContribution\<close> appends exactly one outcome per
  artifact of the current folder, in listing order and named by the artifact's stem: the
  verifier's result when the baseline lists the same file name, and otherwise the failure
  with the fixed message \<^verbatim>\<open>Missing initial zkey file\<close>, after which the loop goes on with
  the remaining artifacts. An artifact that only the baseline lists gets no outcome (file
  names being names of directory entries, without a separator).
\<close>

theorem C4_asymmetric_matching:
  assumes "getZkeyFiles e folder = Inr cs" and "getZkeyFiles e initialFolder = Inr bs"
    and "cs \<noteq> []" and "bs \<noteq> []"
  shows "results (snd (verifyContribution e folder initialFolder ptauFile st)) =
           results st @
             map (\<lambda>zkeyFile. if zkeyFile \<in> set bs
                              then verifierOutcome e initialFolder ptauFile folder zkeyFile
                              else missingOutcome folder zkeyFile) cs
       \<and> (\<forall>zkeyFile\<in>set cs. zkeyFile \<notin> set bs \<longrightarrow>
             \<lparr>contributionFolder = folder, circuitName = basename_ext zkeyFile ''.zkey'',
              success = False, errorMessage = Some ''Missing initial zkey file''\<rparr>
             \<in> set (drop (length (results st))
                      (results (snd (verifyContribution e folder initialFolder ptauFile st)))))
       \<and> map circuitName
           (drop (length (results st))
              (results (snd (verifyContribution e folder initialFolder ptauFile st)))) =
         map (\<lambda>zkeyFile. basename_ext zkeyFile ''.zkey'') cs
       \<and> ((\<forall>n\<in>set cs \<union> set bs. CHR ''/'' \<notin> set n) \<longrightarrow>
            (\<forall>b\<in>set bs. b \<notin> set cs \<longrightarrow>
               (\<forall>r\<in>set (drop (length (results st))
                          (results (snd (verifyContribution e folder initialFolder ptauFile st)))).
                  circuitName r \<noteq> basename_ext b ''.zkey'')))"
proof -
  let ?new = "map (\<lambda>zkeyFile. if zkeyFile \<in> set bs
                              then verifierOutcome e initialFolder ptauFile folder zkeyFile
                              else missingOutcome folder zkeyFile) cs"
  have r: "results (snd (verifyContribution e folder initialFolder ptauFile st)) =
           results st @ ?new"
    using assms
    by (simp add: verifyContribution_results folderOutcomes_unfold zkeyFilesOf_def)
  have d: "drop (length (results st))
             (results (snd (verifyContribution e folder initialFolder ptauFile st))) = ?new"
    by (simp add: r)
  have names: "map circuitName ?new = map (\<lambda>zkeyFile. basename_ext zkeyFile ''.zkey'') cs"
    by (simp add: verifierOutcome_def missingOutcome_def stem_def o_def
        split: sum.split thrown.split)
  let ?g = "\<lambda>zkeyFile. if zkeyFile \<in> set bs
                            then verifierOutcome e initialFolder ptauFile folder zkeyFile
                            else missingOutcome folder zkeyFile"
  have g_name: "circuitName (?g z) = basename_ext z ''.zkey''" for z
    by (simp add: verifierOutcome_def missingOutcome_def stem_def split: sum.split thrown.split)
  have miss: "\<forall>zkeyFile\<in>set cs. zkeyFile \<notin> set bs \<longrightarrow>
             \<lparr>contributionFolder = folder, circuitName = basename_ext zkeyFile ''.zkey'',
              success = False, errorMessage = Some ''Missing initial zkey file''\<rparr>
             \<in> set ?new"
  proof (intro ballI impI)
    fix z assume z: "z \<in> set cs" "z \<notin> set bs"
    have "?g z \<in> ?g ` set cs" using z(1) by (rule imageI)
    moreover have "?g z = \<lparr>contributionFolder = folder, circuitName = basename_ext z ''.zkey'',
              success = False, errorMessage = Some ''Missing initial zkey file''\<rparr>"
      using z(2) by (simp add: missingOutcome_def stem_def)
    ultimately show "\<lparr>contributionFolder = folder, circuitName = basename_ext z ''.zkey'',
              success = False, errorMessage = Some ''Missing initial zkey file''\<rparr>
             \<in> set ?new"
      by (simp only: set_map)
  qed
  have none: "\<forall>b\<in>set bs. b \<notin> set cs \<longrightarrow> (\<forall>r\<in>set ?new. circuitName r \<noteq> basename_ext b ''.zkey'')"
    if plain: "\<forall>n\<in>set cs \<union> set bs. CHR ''/'' \<notin> set n"
  proof (intro ballI impI)
    fix b r assume b: "b \<in> set bs" "b \<notin> set cs" and r: "r \<in> set ?new"
    from r have "r \<in> ?g ` set cs" by (simp only: set_map)
    then obtain z where z: "r = ?g z" "z \<in> set cs" by (rule imageE)
    have zn: "circuitName r = basename_ext z ''.zkey''"
      by (simp only: z(1) g_name)
    show "circuitName r \<noteq> basename_ext b ''.zkey''"
    proof
      assume "circuitName r = basename_ext b ''.zkey''"
      with zn have eq: "basename_ext z ''.zkey'' = basename_ext b ''.zkey''" by simp
      have p: "CHR ''/'' \<notin> set z" "CHR ''/'' \<notin> set b" using plain z(2) b(1) by simp_all
      have w: "endsWith z ''.zkey''" "endsWith b ''.zkey''"
        using getZkeyFiles_endsWith[OF assms(1)] getZkeyFiles_endsWith[OF assms(2)] z(2) b(1)
        by simp_all
      have "z = b" by (rule basename_ext_inj[OF p(1) w(1) p(2) w(2) _ eq]) simp
      with z(2) b(2) show False by simp
    qed
  qed
  from none have none': "(\<forall>n\<in>set cs \<union> set bs. CHR ''/'' \<notin> set n) \<longrightarrow>
      (\<forall>b\<in>set bs. b \<notin> set cs \<longrightarrow> (\<forall>r\<in>set ?new. circuitName r \<noteq> basename_ext b ''.zkey''))"
    by (rule impI)
  from r miss names none' show ?thesis
    unfolding d by (intro conjI)
qed



theorem C4_asymmetric_matching_witness:
  "getZkeyFiles example_env ''0002_bob'' = Inr [''a.zkey'', ''c.zkey'']
   \<and> getZkeyFiles example_env ''0000_initial'' = Inr [''a.zkey'', ''b.zkey'']
   \<and> results (snd (verifyContribution example_env ''0002_bob'' ''0000_initial'' ''pot.ptau''
         initial_state)) =
       [\<lparr>contributionFolder = ''0002_bob'', circuitName = ''a'', success = True,
          errorMessage = None\<rparr>,
        \<lparr>contributionFolder = ''0002_bob'', circuitName = ''c'', success = False,
          errorMessage = Some ''Missing initial zkey file''\<rparr>]
   \<and> ''b'' \<notin> set (map circuitName
         (results (snd (verifyContribution example_env ''0002_bob'' ''0000_initial'' ''pot.ptau''
            initial_state))))"
  using C4_asymmetric_matching[of example_env "''0002_bob''" "[''a.zkey'', ''c.zkey'']"
          "''0000_initial''" "[''a.zkey'', ''b.zkey'']" "''pot.ptau''" initial_state]
  by (simp add: example_zkeys example_exec initial_state_def
      verifierOutcome_def missingOutcome_def stem_def basename_ext_def basename_def endsWith_def
      artifactPath_def path_join_def contributionRootFolder_def zkvi_command_def)

text \<open>
  C5. When the contribution folder lists no artifact, or it lists some and the baseline
  lists none, \<^verbatim>\<open>verifyContribution\<close> returns \<^verbatim>\<open>false\<close> before the artifact loop: the recorded
  outcomes and the commands run are unchanged (no verifier invocation, no per-circuit
  outcome), the only effect is the console line that no \<^verbatim>\<open>.zkey\<close> files were found in the
  empty folder (a different report from the unmatched-artifact outcome), and the loop of
  \<^verbatim>\<open>main\<close> goes on with the next folder.
\<close>

theorem C5_folder_level_failure:
  assumes "getZkeyFiles e folder = Inr cs"
    and "cs = [] \<or> getZkeyFiles e initialFolder = Inr []"
  shows "verifyContribution e folder initialFolder ptauFile st =
           (Inr False,
            st\<lparr>console := console st @
                  [VerifyingContributionsIn folder,
                   NoZkeyFilesFoundIn (if cs = [] then folder else initialFolder)]\<rparr>)
       \<and> (k < length folders \<and> folders ! k = folder \<longrightarrow>
            main_loop e folders initialFolder ptauFile k st =
            main_loop e folders initialFolder ptauFile (k + 1)
              (st\<lparr>console := console st @
                    [VerifyingContributionsIn folder,
                     NoZkeyFilesFoundIn (if cs = [] then folder else initialFolder)]\<rparr>))"
proof -
  have v: "verifyContribution e folder initialFolder ptauFile st =
           (Inr False,
            st\<lparr>console := console st @
                  [VerifyingContributionsIn folder,
                   NoZkeyFilesFoundIn (if cs = [] then folder else initialFolder)]\<rparr>)"
  proof (cases "cs = []")
    case True
    with assms(1) show ?thesis by (simp add: verifyContribution_empty1 print_def)
  next
    case False
    with assms show ?thesis by (simp add: verifyContribution_empty2 print_def)
  qed
  have "main_loop e folders initialFolder ptauFile k st =
        main_loop e folders initialFolder ptauFile (k + 1)
          (st\<lparr>console := console st @
                [VerifyingContributionsIn folder,
                 NoZkeyFilesFoundIn (if cs = [] then folder else initialFolder)]\<rparr>)"
    if "k < length folders" "folders ! k = folder"
    using main_loop_step[of k folders e initialFolder ptauFile st] that v by simp
  with v show ?thesis by blast
qed

theorem C5_folder_level_failure_witness:
  "getZkeyFiles empty_baseline_env ''0001_alice'' = Inr [''a.zkey'']
   \<and> getZkeyFiles empty_baseline_env ''0000_initial'' = Inr []
   \<and> verifyContribution empty_baseline_env ''0001_alice'' ''0000_initial'' ''pot.ptau''
         initial_state =
       (Inr False,
        \<lparr>results = [], commands = [],
         console = [VerifyingContributionsIn ''0001_alice'',
                    NoZkeyFilesFoundIn ''0000_initial'']\<rparr>)
   \<and> main_loop empty_baseline_env [''0000_initial'', ''0001_alice''] ''0000_initial''
         ''pot.ptau'' 1 initial_state =
       main_loop empty_baseline_env [''0000_initial'', ''0001_alice''] ''0000_initial''
         ''pot.ptau'' 2
         \<lparr>results = [], commands = [],
          console = [VerifyingContributionsIn ''0001_alice'',
                     NoZkeyFilesFoundIn ''0000_initial'']\<rparr>"
  using C5_folder_level_failure[of empty_baseline_env "''0001_alice''" "[''a.zkey'']"
          "''0000_initial''" "''pot.ptau''" initial_state 1 "[''0000_initial'', ''0001_alice'']"]
  by (simp add: empty_baseline_zkeys initial_state_def numeral_2_eq_2)

text \<open>
  C6. Every call of the external verifier adapter hands exactly one command to
  \<^verbatim>\<open>execSync\<close>, the \<^verbatim>\<open>zkvi\<close> command on its three paths (no retry); the result is success
  without a message when the command exits with status 0, and failure otherwise, with the
  message of the caught \<^verbatim>\<open>Error\<close> when there is one and the fixed text
  \<^verbatim>\<open>Unknown error\<close> when there is none. The recorded results are not touched.
\<close>

theorem C6_verifier_adapter:
  "commands (snd (verifyZkeyContribution e i p c st)) = commands st @ [zkvi_command i p c]
   \<and> results (snd (verifyZkeyContribution e i p c st)) = results st
   \<and> fst (verifyZkeyContribution e i p c st) =
       (case execSync e (zkvi_command i p c) of
          Inr u \<Rightarrow> (True, None)
        | Inl (Error message) \<Rightarrow> (False, Some message)
        | Inl NonError \<Rightarrow> (False, Some ''Unknown error''))"
  by (simp add: verifyZkeyContribution_def print_def Let_def split: sum.split thrown.split)

text \<open>
  C7. When the contribution root can be listed, \<^verbatim>\<open>getContributionFolders\<close> returns (it
  does not throw) exactly the names of the subdirectories that start with four digits and
  an underscore, each as often as it is listed, in lexically ascending order; the result
  is the empty list when no subdirectory matches. On names of that pattern the lexical
  order agrees with the numeric order of the four-digit ordinals, so the returned list is
  also ascending in its ordinals.
\<close>

theorem C7_contribution_folders:
  assumes "readdirSyncWithFileTypes e contributionRootFolder = Inr dirents"
  shows "\<exists>fs. getContributionFolders e = Inr fs
           \<and> mset fs = mset (filter matchOrdinalPrefix (map name (filter isDirectory dirents)))
           \<and> sorted fs
           \<and> ((\<forall>d\<in>set dirents. isDirectory d \<longrightarrow> \<not> matchOrdinalPrefix (name d)) \<longrightarrow> fs = [])
           \<and> sorted (map ordinalOf fs)
           \<and> (matchOrdinalPrefix a \<and> matchOrdinalPrefix b \<longrightarrow>
                (a \<le> b \<longrightarrow> ordinalOf a \<le> ordinalOf b)
                \<and> (ordinalOf a < ordinalOf b \<longrightarrow> a < b))"
proof -
  let ?fs = "sort (filter matchOrdinalPrefix (map name (filter isDirectory dirents)))"
  have g: "getContributionFolders e = Inr ?fs"
    using assms by (simp add: getContributionFolders_def getDirectories_def)
  have m: "mset ?fs = mset (filter matchOrdinalPrefix (map name (filter isDirectory dirents)))"
    by simp
  have s: "sorted ?fs" by simp
  have n: "(\<forall>d\<in>set dirents. isDirectory d \<longrightarrow> \<not> matchOrdinalPrefix (name d)) \<longrightarrow> ?fs = []"
  proof
    assume a: "\<forall>d\<in>set dirents. isDirectory d \<longrightarrow> \<not> matchOrdinalPrefix (name d)"
    have "filter matchOrdinalPrefix (map name (filter isDirectory dirents)) = []"
      unfolding filter_empty_conv
    proof
      fix x assume "x \<in> set (map name (filter isDirectory dirents))"
      then obtain d where "d \<in> set (filter isDirectory dirents)" "x = name d"
        unfolding set_map by (rule imageE)
      with a show "\<not> matchOrdinalPrefix x" by simp
    qed
    then show "?fs = []" by simp
  qed
  have o: "sorted (map ordinalOf ?fs)"
    by (rule sorted_map_ordinal) simp_all
  have c: "matchOrdinalPrefix a \<and> matchOrdinalPrefix b \<longrightarrow>
                (a \<le> b \<longrightarrow> ordinalOf a \<le> ordinalOf b)
                \<and> (ordinalOf a < ordinalOf b \<longrightarrow> a < b)"
    using ordinal_le[of a b] ordinal_less[of a b] by blast
  from g m s n o c show ?thesis by blast
qed

theorem C7_contribution_folders_witness:
  "getContributionFolders example_env = Inr [''0000_initial'', ''0001_alice'', ''0002_bob'']
   \<and> map ordinalOf [''0000_initial'', ''0001_alice'', ''0002_bob''] = [0, 1, 2]
   \<and> ''0001_alice'' < ''0002_bob''"
  using C7_contribution_folders[OF example_listing, of "''0001_alice''" "''0002_bob''"]
  by (simp add: example_folders isDigit_def digitValue_def)

text \<open>
  C8. When the contribution root holds fewer than two contribution folders, the run
  returns normally: it records no outcome, runs no command, and writes that there is
  nothing to verify.
\<close>

theorem C8_nothing_to_verify:
  assumes "getContributionFolders e = Inr folders" and "length folders < 2"
  shows "main e (Inr ptauFile) =
           (Returned,
            \<lparr>results = [], commands = [],
             console = [FoundContributions (length folders), AtLeastTwoContributionsNeeded,
                        NothingToVerifyYet]\<rparr>)"
  using assms by (simp add: main_def Let_def print_def initial_state_def)

theorem C8_nothing_to_verify_witness:
  "getContributionFolders baseline_only_env = Inr [''0000_initial'']
   \<and> main baseline_only_env (Inr ''pot.ptau'') =
       (Returned,
        \<lparr>results = [], commands = [],
         console = [FoundContributions 1, AtLeastTwoContributionsNeeded, NothingToVerifyYet]\<rparr>)"
  using C8_nothing_to_verify[of baseline_only_env "[''0000_initial'']" "''pot.ptau''"]
  by (simp add: getContributionFolders_def getDirectories_def baseline_only_env_def
      contributionRootFolder_def isDigit_def)

text \<open>
  C9 (as amended). For every outcome list in which no folder and no circuit is named like
  a property that objects inherit (\<^verbatim>\<open>constructor\<close>, \<^verbatim>\<open>toString\<close>, ...), the summary table is
  printed in full, with one row per distinct \<open>contributionFolder\<close>, the rows in lexically
  ascending order of the folder name (the keys of the groups are sorted before the rows
  are printed, so the order of first occurrence does not show), each row built from the
  outcomes of its folder; the columns are the distinct \<open>circuitName\<close> values in lexically
  ascending order.
\<close>

theorem C9_report_layout:
  assumes "\<forall>r\<in>set rs. contributionFolder r \<notin> set objectPrototypeNames
                     \<and> circuitName r \<notin> set objectPrototypeNames"
  shows "fst (printResultsTable e rs st) = Inr ()
   \<and> tableHeadersOf (drop (length (console st)) (console (snd (printResultsTable e rs st)))) =
       [sort (setValues (map circuitName rs))]
   \<and> tableRowsOf (drop (length (console st)) (console (snd (printResultsTable e rs st)))) =
       map (\<lambda>folder.
              (folder,
               map (\<lambda>circuit.
                      case resultByCircuit (filter (\<lambda>r. contributionFolder r = folder) rs)
                             circuit of
                        Some c \<Rightarrow> c | None \<Rightarrow> NA)
                 (sort (setValues (map circuitName rs)))))
         (sort (setValues (map contributionFolder rs)))
   \<and> map fst (tableRowsOf (drop (length (console st))
                  (console (snd (printResultsTable e rs st))))) =
       sort (setValues (map contributionFolder rs))
   \<and> sorted (sort (setValues (map contributionFolder rs)))
   \<and> distinct (sort (setValues (map contributionFolder rs)))
   \<and> set (sort (setValues (map contributionFolder rs))) = set (map contributionFolder rs)
   \<and> sorted (sort (setValues (map circuitName rs)))
   \<and> distinct (sort (setValues (map circuitName rs)))
   \<and> set (sort (setValues (map circuitName rs))) = set (map circuitName rs)"
proof -
  note p = printResultsTable_plain[OF assms, of e st]
  let ?new = "drop (length (console st)) (console (snd (printResultsTable e rs st)))"
  have h: "tableHeadersOf ?new = [sort (setValues (map circuitName rs))]"
    unfolding p(2)
    by (simp add: tableHeadersOf_append tableHeadersOf_rows tableHeadersOf_failures
        tableHeadersOf_Cons tableHeadersOf_Nil)
  have r: "tableRowsOf ?new =
       map (\<lambda>folder.
              (folder,
               map (\<lambda>circuit.
                      case resultByCircuit (filter (\<lambda>r. contributionFolder r = folder) rs)
                             circuit of
                        Some c \<Rightarrow> c | None \<Rightarrow> NA)
                 (sort (setValues (map circuitName rs)))))
         (sort (setValues (map contributionFolder rs)))"
    unfolding p(2)
    by (simp add: tableRowsOf_append tableRowsOf_rows tableRowsOf_failures
        tableRowsOf_Cons tableRowsOf_Nil)
       (simp add: rowCells_def)
  have k: "map fst (tableRowsOf ?new) = sort (setValues (map contributionFolder rs))"
    by (simp add: r o_def)
  from p(1) h r k show ?thesis by (intro conjI) simp_all
qed

theorem C9_report_layout_witness:
  "fst (printResultsTable example_env unordered_outcomes initial_state) = Inr ()
   \<and> tableHeadersOf (console (snd (printResultsTable example_env unordered_outcomes
         initial_state))) = [[''a'', ''b'']]
   \<and> tableRowsOf (console (snd (printResultsTable example_env unordered_outcomes
         initial_state))) =
       [(''0001_alice'', [FAIL, NA]), (''0002_bob'', [PASS, PASS])]"
  using C9_report_layout[of unordered_outcomes example_env initial_state]
  by (simp add: unordered_outcomes_def objectPrototypeNames_def setValues_def
      resultByCircuit_def initial_console)

text \<open>
  The claim as stated fails on a list that is not in chain order: the first outcome is of
  \<^verbatim>\<open>0002_bob\<close>, so the order of first occurrence puts \<^verbatim>\<open>0002_bob\<close> first, and the table has
  \<^verbatim>\<open>0001_alice\<close> as its first row. It also fails on a list with a circuit named
  \<^verbatim>\<open>constructor\<close> that \<^verbatim>\<open>0002_bob\<close> has no outcome for: the header and the row of
  \<^verbatim>\<open>0001_alice\<close> are printed, then the cell of \<^verbatim>\<open>0002_bob\<close> throws a \<^verbatim>\<open>TypeError\<close> and its
  row never appears.
\<close>

theorem C9_counterexample:
  "map contributionFolder unordered_outcomes = [''0002_bob'', ''0001_alice'', ''0002_bob'']
   \<and> setValues (map contributionFolder unordered_outcomes) = [''0002_bob'', ''0001_alice'']
   \<and> fst (printResultsTable example_env unordered_outcomes initial_state) = Inr ()
   \<and> map fst (tableRowsOf (console (snd (printResultsTable example_env unordered_outcomes
         initial_state)))) = [''0001_alice'', ''0002_bob'']
   \<and> map contributionFolder inherited_name_outcomes = [''0001_alice'', ''0002_bob'']
   \<and> printResultsTable example_env inherited_name_outcomes initial_state =
       (Inl (Error ''padEnd is not a function''),
        \<lparr>results = [], commands = [],
         console = [SummaryHeading, TableHeader 20 15 [''a'', ''constructor''],
                    TableSeparator 20 15 2, TableRow ''0001_alice'' [NA, PASS]]\<rparr>)"
  by code_simp

text \<open>
  C10. In the outcome list of a full run, the outcomes come in blocks, one block per
  contribution folder in chain order (indices 1 and above of the sorted folder list), so
  that the folder names of the outcomes are in ascending order and every outcome of an
  earlier folder precedes every outcome of a later one; within a block the outcomes follow
  the folder's artifact listing, one outcome per listed artifact, named by the artifact's
  stem, when both the folder and the baseline list at least one artifact (and the block is
  empty otherwise).
\<close>

theorem C10_outcome_order:
  assumes "getContributionFolders e = Inr folders" and "2 \<le> length folders"
    and "\<forall>f\<in>set folders. listable e f"
  shows "map (\<lambda>r. (contributionFolder r, circuitName r)) (results (snd (main e (Inr ptauFile)))) =
           concat (map (\<lambda>folder.
                     if zkeyFilesOf e folder = [] \<or> zkeyFilesOf e (folders ! 0) = [] then []
                     else map (\<lambda>zkeyFile. (folder, basename_ext zkeyFile ''.zkey''))
                            (zkeyFilesOf e folder))
                   (drop 1 folders))
       \<and> sorted (map contributionFolder (results (snd (main e (Inr ptauFile)))))"
proof -
  note run = main_run(2)[OF assms, of ptauFile]
  have s: "sorted (drop 1 folders)"
    using getContributionFolders_sorted[OF assms(1)] by (rule sorted_wrt_drop)
  have k: "map (\<lambda>r. (contributionFolder r, circuitName r)) (results (snd (main e (Inr ptauFile)))) =
           concat (map (\<lambda>folder.
                     if zkeyFilesOf e folder = [] \<or> zkeyFilesOf e (folders ! 0) = [] then []
                     else map (\<lambda>zkeyFile. (folder, basename_ext zkeyFile ''.zkey''))
                            (zkeyFilesOf e folder))
                   (drop 1 folders))"
    by (simp only: run map_concat map_map o_def folderOutcomes_keys)
  have "map contributionFolder (results (snd (main e (Inr ptauFile)))) =
          concat (map (\<lambda>f. map contributionFolder (folderOutcomes e (folders ! 0) ptauFile f))
                    (drop 1 folders))"
    by (simp only: run map_concat map_map o_def)
  moreover have "sorted (concat (map (\<lambda>f. map contributionFolder
                    (folderOutcomes e (folders ! 0) ptauFile f)) (drop 1 folders)))"
    using s by (rule sorted_concat_blocks) (auto dest: folderOutcomes_folder)
  ultimately have "sorted (map contributionFolder (results (snd (main e (Inr ptauFile)))))"
    by simp
  with k show ?thesis by (intro conjI)
qed

theorem C10_outcome_order_witness:
  "getContributionFolders example_env = Inr [''0000_initial'', ''0001_alice'', ''0002_bob'']
   \<and> map (\<lambda>r. (contributionFolder r, circuitName r))
         (results (snd (main example_env (Inr ''pot.ptau'')))) =
       [(''0001_alice'', ''a''), (''0001_alice'', ''b''), (''0002_bob'', ''a''),
        (''0002_bob'', ''c'')]"
  using C10_outcome_order[of example_env
          "[''0000_initial'', ''0001_alice'', ''0002_bob'']" "''pot.ptau''"]
  by (simp add: example_folders example_zkeys listable_def zkeyFilesOf_def
      basename_ext_def basename_def endsWith_def)

end
